theory Spec2Isabelle
  imports Complex_Main "HOL-Library.Multiset" "HOL-Library.Log_Nat"
begin

section \<open>JavaScript values\<close>

text \<open>
  The dashboard (src/src/App.js, component \<open>DynamicLeadTimeDashboard\<close>) is modelled in its
  later version, the one with the validation steps (the second \<open>processCSV\<close>, at lines
  514 to 622); the earlier version in the same file computes the lead time and sorts with
  the very same expressions (lines 98 to 100 and 112).

  A JavaScript string is a sequence of UTF-16 code units, kept here as natural numbers, so
  that the symbols of the messages and the white space of \<open>trim\<close> are the ones the
  language defines. \<open>lit\<close> turns an ASCII literal into such a string.
\<close>

type_synonym jsstring = "nat list"

definition lit :: "string \<Rightarrow> jsstring" where
  "lit s = map of_char s"

text \<open>
  A cell as Papa.parse hands it over with \<open>dynamicTyping: true\<close>: a string, a number, a
  boolean, a Date (its time value, \<open>None\<close> when it is NaN), \<open>null\<close> for an empty cell,
  and \<open>undefined\<close> for a property the row object does not have. Numbers are finite here,
  and the two zeros behave alike in everything the program does with a cell.
\<close>

datatype jsval =
    JUndefined
  | JNull
  | JBool bool
  | JNum rat
  | JStr jsstring
  | JDate "int option"

text \<open>ToBoolean, as \<open>&&\<close> and \<open>filter\<close> apply it.\<close>

fun truthy :: "jsval \<Rightarrow> bool" where
  "truthy JUndefined = False"
| "truthy JNull = False"
| "truthy (JBool b) = b"
| "truthy (JNum n) = (n \<noteq> 0)"
| "truthy (JStr s) = (s \<noteq> [])"
| "truthy (JDate t) = True"

text \<open>White space and line terminators of ECMAScript, which \<open>String.prototype.trim\<close> strips.\<close>

definition isWhiteSpace :: "nat \<Rightarrow> bool" where
  "isWhiteSpace c =
     (c = 9 \<or> c = 10 \<or> c = 11 \<or> c = 12 \<or> c = 13 \<or> c = 32 \<or> c = 160 \<or> c = 5760
      \<or> (8192 \<le> c \<and> c \<le> 8202) \<or> c = 8232 \<or> c = 8233 \<or> c = 8239 \<or> c = 8287
      \<or> c = 12288 \<or> c = 65279)"

definition trim :: "jsstring \<Rightarrow> jsstring" where
  "trim s = rev (dropWhile isWhiteSpace (rev (dropWhile isWhiteSpace s)))"

text \<open>\<open>Array.prototype.join\<close> on an array of strings.\<close>

fun join :: "jsstring \<Rightarrow> jsstring list \<Rightarrow> jsstring" where
  "join sep [] = []"
| "join sep [x] = x"
| "join sep (x # y # ys) = x @ sep @ join sep (y # ys)"

definition endsWith :: "jsstring \<Rightarrow> jsstring \<Rightarrow> bool" where
  "endsWith s suffix =
     (length suffix \<le> length s \<and> drop (length s - length suffix) s = suffix)"

text \<open>Reading an array at an index: \<open>None\<close> is the \<open>undefined\<close> of an index out of range.\<close>

definition at_index :: "'a list \<Rightarrow> nat \<Rightarrow> 'a option" where
  "at_index xs i = (if i < length xs then Some (xs ! i) else None)"

text \<open>A thrown \<open>new Error(message)\<close>.\<close>

datatype js_error = Error jsstring

fun message :: "js_error \<Rightarrow> jsstring" where
  "message (Error m) = m"

section \<open>Numbers\<close>

text \<open>
  A JavaScript number is a binary64 floating-point number; the finite ones are kept as the
  rationals they stand for. \<open>toDouble q\<close> is the number that an arithmetic operation
  with the exact result \<open>q\<close> returns: \<open>q\<close> rounded to the nearest number with 53
  significant bits, a tie going to the even significand. \<open>binade q\<close> is the exponent
  \<open>e\<close> with \<open>2 ^ e \<le> |q| < 2 ^ (e + 1)\<close>. Overflow and subnormal numbers are left
  aside: no operation of the program comes near them.
\<close>

definition roundTiesEven :: "rat \<Rightarrow> int" where
  "roundTiesEven q =
     (let f = \<lfloor>q\<rfloor>; r = q - of_int f
      in if r < 1 / 2 then f else if 1 / 2 < r then f + 1 else if even f then f else f + 1)"

definition binade :: "rat \<Rightarrow> int" where
  "binade q =
     (let (a, b) = quotient_of q; e0 = bitlen \<bar>a\<bar> - bitlen b
      in if 2 powi e0 \<le> \<bar>q\<bar> then e0 else e0 - 1)"

definition toDouble :: "rat \<Rightarrow> rat" where
  "toDouble q =
     (if q = 0 then 0
      else (let u = 2 powi (binade q - 52) in of_int (roundTiesEven (q / u)) * u))"

text \<open>
  \<open>TimeClip\<close> of ECMAScript, on a whole number of milliseconds: a Date holds a time value
  of at most 8.64e15 in magnitude, or NaN (\<open>None\<close>).
\<close>

definition timeClip :: "int \<Rightarrow> int option" where
  "timeClip t = (if \<bar>t\<bar> \<le> 8640000000000000 then Some t else None)"

section \<open>What the host and the libraries provide\<close>

text \<open>
  A row of \<open>parsed.data\<close> is an object from header names to cells; \<open>cell\<close> reads a
  property, \<open>undefined\<close> when it is absent.
\<close>

type_synonym row = "jsstring \<rightharpoonup> jsval"

definition cell :: "row \<Rightarrow> jsstring \<Rightarrow> jsval" where
  "cell r k = (case r k of None \<Rightarrow> JUndefined | Some v \<Rightarrow> v)"

record parsed =
  parsed_data :: "row list"
  meta_fields :: "jsstring list option"
  parsed_errors :: "jsstring list"

text \<open>
  Papa.parse, the host's parser of date texts and the conversions of numbers and dates to
  strings are not code of the dashboard: they are parameters of the model. \<open>dateParse s\<close>
  is what the parser makes of the text \<open>s\<close>, in milliseconds since the epoch, \<open>None\<close>
  when it gives NaN.
\<close>

record host =
  papaParse :: "jsstring \<Rightarrow> parsed"
  dateParse :: "jsstring \<Rightarrow> int option"
  numberToString :: "rat \<Rightarrow> jsstring"
  dateToString :: "int option \<Rightarrow> jsstring"
  toLocaleDateString :: "int \<Rightarrow> jsstring"
  toLowerCase :: "jsstring \<Rightarrow> jsstring"

text \<open>
  \<open>new Date(s).getTime()\<close> for a string \<open>s\<close>: the constructor clips what the parser
  gives, so the result is NaN or a whole number of magnitude at most 8.64e15.
\<close>

definition newDate :: "host \<Rightarrow> jsstring \<Rightarrow> int option" where
  "newDate h s = (case dateParse h s of None \<Rightarrow> None | Some t \<Rightarrow> timeClip t)"

text \<open>\<open>String(v)\<close>, which is also what a template literal applies to \<open>${v}\<close>.\<close>

fun js_String :: "host \<Rightarrow> jsval \<Rightarrow> jsstring" where
  "js_String h JUndefined = lit ''undefined''"
| "js_String h JNull = lit ''null''"
| "js_String h (JBool b) = (if b then lit ''true'' else lit ''false'')"
| "js_String h (JNum n) = numberToString h n"
| "js_String h (JStr s) = s"
| "js_String h (JDate t) = dateToString h t"

section \<open>The component's state\<close>

record item =
  item_id :: jsstring
  item_type :: jsstring
  commitedDate :: int
  closedDate :: int
  leadTime :: int
  dateFormatted :: jsstring
  timestamp :: int

record state =
  data :: "item list"
  itemTypes :: "jsstring list"
  typeFilters :: "jsstring \<rightharpoonup> bool"
  showP85 :: bool
  showP95 :: bool
  loading :: bool
  error :: "jsstring option"
  csvUploaded :: bool
  fileName :: jsstring

definition initialState :: state where
  "initialState =
     \<lparr>data = [], itemTypes = [], typeFilters = Map.empty, showP85 = True, showP95 = True,
      loading = False, error = None, csvUploaded = False, fileName = []\<rparr>"

section \<open>processCSV\<close>

definition col_ID :: jsstring where
  "col_ID = lit ''ID''"

definition col_Tipo :: jsstring where
  "col_Tipo = lit ''Tipo de Item''"

definition col_Commited :: jsstring where
  "col_Commited = lit ''Commited Date''"

definition col_Closed :: jsstring where
  "col_Closed = lit ''Closed Date''"

definition requiredColumns :: "jsstring list" where
  "requiredColumns = [col_ID, col_Tipo, col_Commited, col_Closed]"

definition headers :: "parsed \<Rightarrow> jsstring list" where
  "headers p = (case meta_fields p of None \<Rightarrow> [] | Some fs \<Rightarrow> fs)"

definition missingColumns :: "parsed \<Rightarrow> jsstring list" where
  "missingColumns p = filter (\<lambda>col. col \<notin> set (headers p)) requiredColumns"

text \<open>The four messages, code unit by code unit (10060 is the cross mark, 8226 the bullet).\<close>

definition expectedStructure :: jsstring where
  "expectedStructure = lit ''ID, Tipo de Item, Commited Date, Closed Date''"

definition schemaMessage :: "jsstring list \<Rightarrow> jsstring list \<Rightarrow> jsstring" where
  "schemaMessage missing hs =
     [10060] @ lit '' Estrutura do CSV inv'' @ [225] @ lit ''lida!'' @ [10, 10] @
     lit ''Colunas obrigat'' @ [243] @ lit ''rias faltando:'' @ [10] @
       join (lit '', '') missing @ [10, 10] @
     lit ''Estrutura esperada:'' @ [10] @ expectedStructure @ [10, 10] @
     lit ''Estrutura encontrada:'' @ [10] @ join (lit '', '') hs"

definition noValidDataMessage :: jsstring where
  "noValidDataMessage =
     [10060] @ lit '' Nenhum dado v'' @ [225] @ lit ''lido encontrado!'' @ [10, 10] @
     lit ''Verifique se o CSV possui:'' @ [10] @
     [8226] @ lit '' Pelo menos uma linha de dados'' @ [10] @
     [8226] @ lit '' Valores preenchidos em todas as colunas obrigat'' @ [243] @ lit ''rias'' @ [10] @
     [8226] @ lit '' Datas no formato correto (YYYY-MM-DD)''"

definition expectedFormat :: jsstring where
  "expectedFormat = lit ''Use o formato: YYYY-MM-DD (ex: 2025-01-15)''"

definition invalidDateMessage :: "jsstring \<Rightarrow> jsstring \<Rightarrow> jsstring \<Rightarrow> jsstring" where
  "invalidDateMessage ident commitedText closedText =
     [10060] @ lit '' Data inv'' @ [225] @ lit ''lida encontrada!'' @ [10, 10] @
     lit ''Linha com ID: '' @ ident @ [10] @
     lit ''Commited Date: '' @ commitedText @ [10] @
     lit ''Closed Date: '' @ closedText @ [10, 10] @
     expectedFormat"

definition inconsistentDateMessage :: "jsstring \<Rightarrow> jsstring \<Rightarrow> jsstring \<Rightarrow> jsstring" where
  "inconsistentDateMessage ident closedText commitedText =
     [10060] @ lit '' Data inconsistente encontrada!'' @ [10, 10] @
     lit ''Linha com ID: '' @ ident @ [10] @
     lit ''Closed Date ('' @ closedText @ lit '') '' @ [233] @
       lit '' anterior ao Commited Date ('' @ commitedText @ lit '')'' @ [10, 10] @
     lit ''A data de conclus'' @ [227] @ lit ''o deve ser igual ou posterior '' @ [224] @
       lit '' data de in'' @ [237] @ lit ''cio.''"

text \<open>The predicate of the completeness filter (lines 544 to 549).\<close>

definition rowValid :: "row \<Rightarrow> bool" where
  "rowValid r =
     (truthy (cell r col_ID) \<and> truthy (cell r col_Tipo) \<and>
      truthy (cell r col_Commited) \<and> truthy (cell r col_Closed))"

definition validRows :: "parsed \<Rightarrow> row list" where
  "validRows p = filter rowValid (parsed_data p)"

definition msPerDay :: int where
  "msPerDay = 1000 * 60 * 60 * 24"

text \<open>
  Lines 596 and 597, in the arithmetic of JavaScript numbers: the subtraction and the
  division each round their exact result. The two time values and the divisor are whole
  numbers below \<open>2 ^ 53\<close> and so are numbers as they stand; \<open>Math.floor\<close> is exact, and
  so is the final addition of 1, to a whole number that is far below \<open>2 ^ 53\<close>.
\<close>

definition calcLeadTime :: "int \<Rightarrow> int \<Rightarrow> int" where
  "calcLeadTime commitedMs closedMs =
     (let timeDiff = toDouble (of_int closedMs - of_int commitedMs)
      in \<lfloor>toDouble (timeDiff / of_int msPerDay)\<rfloor> + 1)"

text \<open>The callback of \<open>validRows.map\<close> (lines 566 to 608): it throws or returns the item.\<close>

definition processRow :: "host \<Rightarrow> row \<Rightarrow> js_error + item" where
  "processRow h r =
     (let ident = trim (js_String h (cell r col_ID));
          ty = trim (js_String h (cell r col_Tipo));
          commitedMs = newDate h (trim (js_String h (cell r col_Commited)));
          closedMs = newDate h (trim (js_String h (cell r col_Closed)))
      in case (commitedMs, closedMs) of
           (Some c, Some d) \<Rightarrow>
             if d < c then
               Inl (Error (inconsistentDateMessage ident
                     (js_String h (cell r col_Closed)) (js_String h (cell r col_Commited))))
             else
               Inr \<lparr>item_id = ident, item_type = ty, commitedDate = c, closedDate = d,
                    leadTime = calcLeadTime c d,
                    dateFormatted = toLocaleDateString h d, timestamp = d\<rparr>
         | _ \<Rightarrow>
             Inl (Error (invalidDateMessage ident
                   (js_String h (cell r col_Commited)) (js_String h (cell r col_Closed)))))"

text \<open>\<open>map\<close> with a callback that may throw: the first row that throws ends it.\<close>

fun mapRows :: "host \<Rightarrow> row list \<Rightarrow> js_error + item list" where
  "mapRows h [] = Inr []"
| "mapRows h (r # rs) =
     (case processRow h r of
        Inl e \<Rightarrow> Inl e
      | Inr it \<Rightarrow> (case mapRows h rs of Inl e \<Rightarrow> Inl e | Inr its \<Rightarrow> Inr (it # its)))"

text \<open>
  Lines 527 to 608: everything \<open>processCSV\<close> does before it touches the state; the two
  \<open>console.warn\<close> calls (lines 523 to 525 and 561 to 563) change nothing.
  \<open>Array.prototype.sort\<close> is stable (ECMAScript 2019), as \<open>sort_key\<close> is; the
  comparator's difference of two time values has, as a number, the sign of the exact
  difference.
\<close>

definition processedData :: "host \<Rightarrow> parsed \<Rightarrow> js_error + item list" where
  "processedData h p =
     (if length (missingColumns p) > 0 then
        Inl (Error (schemaMessage (missingColumns p) (headers p)))
      else if length (validRows p) = 0 then
        Inl (Error noValidDataMessage)
      else
        (case mapRows h (validRows p) of
           Inl e \<Rightarrow> Inl e
         | Inr its \<Rightarrow> Inr (sort_key timestamp its)))"

text \<open>\<open>[...new Set(xs)]\<close>: the distinct elements in the order of their first occurrence.\<close>

definition setOrder :: "'a list \<Rightarrow> 'a list" where
  "setOrder xs = foldl (\<lambda>acc x. if x \<in> set acc then acc else acc @ [x]) [] xs"

definition uniqueTypes :: "item list \<Rightarrow> jsstring list" where
  "uniqueTypes pd = setOrder (map item_type pd)"

definition initialFilters :: "jsstring list \<Rightarrow> (jsstring \<rightharpoonup> bool)" where
  "initialFilters types = foldl (\<lambda>m ty. m(ty \<mapsto> True)) Map.empty types"

text \<open>
  \<open>processCSV\<close>: the exception it ends with, if any, and the state it leaves. The three
  setters (lines 619 to 621) come after every \<open>throw\<close>; the state is taken when the
  function has ended, and a render that React may run between two setters is not modelled.
\<close>

definition processCSV :: "host \<Rightarrow> jsstring \<Rightarrow> state \<Rightarrow> js_error option \<times> state" where
  "processCSV h csvContent s =
     (case processedData h (papaParse h csvContent) of
        Inl e \<Rightarrow> (Some e, s)
      | Inr pd \<Rightarrow>
          (None, s\<lparr>data := pd, itemTypes := uniqueTypes pd,
                   typeFilters := initialFilters (uniqueTypes pd)\<rparr>))"

section \<open>The handlers\<close>

record upload_file =
  file_name :: jsstring
  file_text :: "js_error + jsstring"

definition invalidFileMessage :: jsstring where
  "invalidFileMessage =
     [10060] @ lit '' Arquivo inv'' @ [225] @
     lit ''lido! Por favor, selecione apenas arquivos .csv''"

definition processingErrorPrefix :: jsstring where
  "processingErrorPrefix = lit ''Erro ao processar o arquivo: ''"

text \<open>Lines 485 to 512; \<open>None\<close> is an event without a file.\<close>

definition handleFileUpload :: "host \<Rightarrow> upload_file option \<Rightarrow> state \<Rightarrow> state" where
  "handleFileUpload h fo s =
     (case fo of
        None \<Rightarrow> s
      | Some f \<Rightarrow>
          (let s1 = s\<lparr>loading := True, error := None\<rparr> in
           if \<not> endsWith (toLowerCase h (file_name f)) (lit ''.csv'') then
             s1\<lparr>error := Some invalidFileMessage, loading := False\<rparr>
           else
             (let s2 = s1\<lparr>fileName := file_name f\<rparr> in
              case file_text f of
                Inl e \<Rightarrow> s2\<lparr>error := Some (processingErrorPrefix @ message e), loading := False\<rparr>
              | Inr csvContent \<Rightarrow>
                  (case processCSV h csvContent s2 of
                     (Some e, s3) \<Rightarrow>
                       s3\<lparr>error := Some (processingErrorPrefix @ message e), loading := False\<rparr>
                   | (None, s3) \<Rightarrow> s3\<lparr>csvUploaded := True, loading := False\<rparr>))))"

text \<open>Lines 626 to 636; the argument is what \<open>window.fs.readFile\<close> gave.\<close>

definition tryAutoLoad :: "host \<Rightarrow> js_error + jsstring \<Rightarrow> state \<Rightarrow> state" where
  "tryAutoLoad h readFile s =
     (case readFile of
        Inl e \<Rightarrow> s
      | Inr csvContent \<Rightarrow>
          (let s1 = s\<lparr>fileName := lit ''BaseClaude.csv''\<rparr> in
           case processCSV h csvContent s1 of
             (Some e, s2) \<Rightarrow> s2
           | (None, s2) \<Rightarrow> s2\<lparr>csvUploaded := True\<rparr>))"

text \<open>Lines 669 to 674: a missing entry reads as \<open>undefined\<close>, whose negation is true.\<close>

definition toggleTypeFilter :: "jsstring \<Rightarrow> state \<Rightarrow> state" where
  "toggleTypeFilter ty s =
     s\<lparr>typeFilters := (typeFilters s)(ty \<mapsto> \<not> (typeFilters s ty = Some True))\<rparr>"

text \<open>The button that asks for a new file (lines 750 to 757).\<close>

definition importNewCSV :: "state \<Rightarrow> state" where
  "importNewCSV s =
     s\<lparr>csvUploaded := False, data := [], itemTypes := [], typeFilters := Map.empty,
       error := None, fileName := []\<rparr>"

datatype action =
    Upload "upload_file option"
  | AutoLoad "js_error + jsstring"
  | Toggle jsstring
  | ImportNew
  | SetShowP85 bool
  | SetShowP95 bool

fun step :: "host \<Rightarrow> state \<Rightarrow> action \<Rightarrow> state" where
  "step h s (Upload fo) = handleFileUpload h fo s"
| "step h s (AutoLoad rf) = tryAutoLoad h rf s"
| "step h s (Toggle ty) = toggleTypeFilter ty s"
| "step h s ImportNew = importNewCSV s"
| "step h s (SetShowP85 b) = s\<lparr>showP85 := b\<rparr>"
| "step h s (SetShowP95 b) = s\<lparr>showP95 := b\<rparr>"

definition run :: "host \<Rightarrow> action list \<Rightarrow> state" where
  "run h as = foldl (step h) initialState as"

section \<open>Percentiles\<close>

text \<open>
  Lines 651 to 658. \<open>Math.floor(n * 0.85)\<close> is written with the exact fraction: when
  \<open>n\<close> is a multiple of 20 the floating-point product rounds to the whole number
  \<open>17 * n / 20\<close> itself, and otherwise it stays a twentieth away from every whole number,
  far more than the rounding error; the same holds for 0.95. The filter reads
  \<open>typeFilters[item.type]\<close>; a type whose name is that of a property of
  \<open>Object.prototype\<close> is left aside.
\<close>

definition filteredData :: "state \<Rightarrow> item list" where
  "filteredData s = filter (\<lambda>it. typeFilters s (item_type it) = Some True) (data s)"

definition filteredLeadTimes :: "state \<Rightarrow> int list" where
  "filteredLeadTimes s = sort (map leadTime (filteredData s))"

definition p85Index :: "state \<Rightarrow> nat" where
  "p85Index s = (length (filteredLeadTimes s) * 85) div 100"

definition p95Index :: "state \<Rightarrow> nat" where
  "p95Index s = (length (filteredLeadTimes s) * 95) div 100"

definition p85Value :: "state \<Rightarrow> int option" where
  "p85Value s =
     (if length (filteredLeadTimes s) > 0 then at_index (filteredLeadTimes s) (p85Index s)
      else Some 0)"

definition p95Value :: "state \<Rightarrow> int option" where
  "p95Value s =
     (if length (filteredLeadTimes s) > 0 then at_index (filteredLeadTimes s) (p95Index s)
      else Some 0)"

section \<open>Vocabulary of the properties\<close>

text \<open>What \<open>processRow\<close> reads from a row: the trimmed texts and the parsed dates.\<close>

abbreviation idOf :: "host \<Rightarrow> row \<Rightarrow> jsstring" where
  "idOf h r \<equiv> trim (js_String h (cell r col_ID))"

abbreviation typeOf :: "host \<Rightarrow> row \<Rightarrow> jsstring" where
  "typeOf h r \<equiv> trim (js_String h (cell r col_Tipo))"

abbreviation commitedOf :: "host \<Rightarrow> row \<Rightarrow> int option" where
  "commitedOf h r \<equiv> newDate h (trim (js_String h (cell r col_Commited)))"

abbreviation closedOf :: "host \<Rightarrow> row \<Rightarrow> int option" where
  "closedOf h r \<equiv> newDate h (trim (js_String h (cell r col_Closed)))"

abbreviation commitedText :: "host \<Rightarrow> row \<Rightarrow> jsstring" where
  "commitedText h r \<equiv> js_String h (cell r col_Commited)"

abbreviation closedText :: "host \<Rightarrow> row \<Rightarrow> jsstring" where
  "closedText h r \<equiv> js_String h (cell r col_Closed)"

text \<open>
  The calendar day and the time of day of an instant, where \<open>off\<close> is the offset from
  UTC, in milliseconds, of the calendar in force at that instant (0 for UTC). In a zone
  with daylight saving time the two instants of a row may have different offsets.
  \<open>truncatedLeadTime\<close> is the specification's reading of the lead time, both instants
  truncated to their calendar day before the subtraction, in a calendar with one offset.
\<close>

definition dayNumber :: "int \<Rightarrow> int \<Rightarrow> int" where
  "dayNumber off t = (t + off) div msPerDay"

definition timeOfDay :: "int \<Rightarrow> int \<Rightarrow> int" where
  "timeOfDay off t = (t + off) mod msPerDay"

definition truncatedLeadTime :: "int \<Rightarrow> int \<Rightarrow> int \<Rightarrow> int" where
  "truncatedLeadTime off c d = dayNumber off d - dayNumber off c + 1"

section \<open>Example inputs\<close>

text \<open>
  A host for the examples: Papa.parse and the Date constructor as tables that hold, for
  each text used below, what the library and a browser in the UTC time zone return.
\<close>

definition mkRow :: "jsval \<Rightarrow> jsval \<Rightarrow> jsval \<Rightarrow> jsval \<Rightarrow> row" where
  "mkRow a b c d = [col_ID \<mapsto> a, col_Tipo \<mapsto> b, col_Commited \<mapsto> c, col_Closed \<mapsto> d]"

definition strRow :: "string \<Rightarrow> string \<Rightarrow> string \<Rightarrow> string \<Rightarrow> row" where
  "strRow a b c d = mkRow (JStr (lit a)) (JStr (lit b)) (JStr (lit c)) (JStr (lit d))"

definition headerLine :: jsstring where
  "headerLine = lit ''ID,Tipo de Item,Commited Date,Closed Date''"

definition fullHeader :: "jsstring list" where
  "fullHeader = [lit ''ID'', lit ''Tipo de Item'', lit ''Commited Date'', lit ''Closed Date'']"

definition csvTwo :: jsstring where
  "csvTwo = headerLine @ [10] @ lit ''A,Bug,2025-01-01,2025-01-01'' @ [10] @
            lit ''B,Bug,2025-01-01,2025-01-03''"

definition parsedTwo :: parsed where
  "parsedTwo =
     \<lparr>parsed_data = [strRow ''A'' ''Bug'' ''2025-01-01'' ''2025-01-01'',
                     strRow ''B'' ''Bug'' ''2025-01-01'' ''2025-01-03''],
      meta_fields = Some fullHeader, parsed_errors = []\<rparr>"

text \<open>Committed at 23:00, closed at 01:00 of the next day.\<close>

definition csvNight :: jsstring where
  "csvNight = headerLine @ [10] @ lit ''A,Bug,2025-01-01T23:00,2025-01-02T01:00''"

definition parsedNight :: parsed where
  "parsedNight =
     \<lparr>parsed_data = [strRow ''A'' ''Bug'' ''2025-01-01T23:00'' ''2025-01-02T01:00''],
      meta_fields = Some fullHeader, parsed_errors = []\<rparr>"

text \<open>Two rows closed on the same day around one closed earlier.\<close>

definition csvTies :: jsstring where
  "csvTies = headerLine @ [10] @ lit ''A,Bug,2025-01-01,2025-01-03'' @ [10] @
             lit ''B,Task,2025-01-01,2025-01-01'' @ [10] @
             lit ''C,Bug,2025-01-01,2025-01-03''"

definition parsedTies :: parsed where
  "parsedTies =
     \<lparr>parsed_data = [strRow ''A'' ''Bug'' ''2025-01-01'' ''2025-01-03'',
                     strRow ''B'' ''Task'' ''2025-01-01'' ''2025-01-01'',
                     strRow ''C'' ''Bug'' ''2025-01-01'' ''2025-01-03''],
      meta_fields = Some fullHeader, parsed_errors = []\<rparr>"

text \<open>The second row is closed before it is committed.\<close>

definition csvReversed :: jsstring where
  "csvReversed = headerLine @ [10] @ lit ''A,Bug,2025-01-01,2025-01-01'' @ [10] @
                 lit ''Z,Bug,2025-01-03,2025-01-01''"

definition parsedReversed :: parsed where
  "parsedReversed =
     \<lparr>parsed_data = [strRow ''A'' ''Bug'' ''2025-01-01'' ''2025-01-01'',
                     strRow ''Z'' ''Bug'' ''2025-01-03'' ''2025-01-01''],
      meta_fields = Some fullHeader, parsed_errors = []\<rparr>"

text \<open>A header without the item type and the closed date.\<close>

definition csvNoTipo :: jsstring where
  "csvNoTipo = lit ''ID,Tipo,Commited Date'' @ [10] @ lit ''A,Bug,2025-01-01''"

definition parsedNoTipo :: parsed where
  "parsedNoTipo =
     \<lparr>parsed_data = [[lit ''ID'' \<mapsto> JStr (lit ''A''), lit ''Tipo'' \<mapsto> JStr (lit ''Bug''),
                      lit ''Commited Date'' \<mapsto> JStr (lit ''2025-01-01'')]],
      meta_fields = Some [lit ''ID'', lit ''Tipo'', lit ''Commited Date''], parsed_errors = []\<rparr>"

text \<open>The only row has an empty item type, which dynamic typing turns into \<open>null\<close>.\<close>

definition csvBlank :: jsstring where
  "csvBlank = headerLine @ [10] @ lit ''A,,2025-01-01,2025-01-01''"

definition parsedBlank :: parsed where
  "parsedBlank =
     \<lparr>parsed_data = [mkRow (JStr (lit ''A'')) JNull (JStr (lit ''2025-01-01''))
                       (JStr (lit ''2025-01-01''))],
      meta_fields = Some fullHeader, parsed_errors = []\<rparr>"

definition csvPartial :: jsstring where
  "csvPartial = headerLine @ [10] @ lit ''A,,2025-01-01,2025-01-01'' @ [10] @
                lit ''B,Bug,2025-01-01,2025-01-03''"

definition parsedPartial :: parsed where
  "parsedPartial =
     \<lparr>parsed_data = [mkRow (JStr (lit ''A'')) JNull (JStr (lit ''2025-01-01''))
                       (JStr (lit ''2025-01-01'')),
                     strRow ''B'' ''Bug'' ''2025-01-01'' ''2025-01-03''],
      meta_fields = Some fullHeader, parsed_errors = []\<rparr>"

text \<open>An identifier of three spaces.\<close>

definition csvSpaces :: jsstring where
  "csvSpaces = headerLine @ [10] @ lit ''   ,Bug,2025-01-01,2025-01-01''"

definition parsedSpaces :: parsed where
  "parsedSpaces =
     \<lparr>parsed_data = [strRow ''   '' ''Bug'' ''2025-01-01'' ''2025-01-01''],
      meta_fields = Some fullHeader, parsed_errors = []\<rparr>"

text \<open>Identifiers that dynamic typing reads as the number 0 and as \<open>false\<close>.\<close>

definition csvZero :: jsstring where
  "csvZero = headerLine @ [10] @ lit ''0,Bug,2025-01-01,2025-01-01'' @ [10] @
             lit ''false,Bug,2025-01-01,2025-01-01'' @ [10] @
             lit ''   ,Bug,2025-01-01,2025-01-01'' @ [10] @
             lit ''B,Bug,2025-01-01,2025-01-03''"

definition parsedZero :: parsed where
  "parsedZero =
     \<lparr>parsed_data = [mkRow (JNum 0) (JStr (lit ''Bug'')) (JStr (lit ''2025-01-01''))
                       (JStr (lit ''2025-01-01'')),
                     mkRow (JBool False) (JStr (lit ''Bug'')) (JStr (lit ''2025-01-01''))
                       (JStr (lit ''2025-01-01'')),
                     strRow ''   '' ''Bug'' ''2025-01-01'' ''2025-01-01'',
                     strRow ''B'' ''Bug'' ''2025-01-01'' ''2025-01-03''],
      meta_fields = Some fullHeader, parsed_errors = []\<rparr>"

text \<open>A commitment date that is no date, in the second row.\<close>

definition csvBadDate :: jsstring where
  "csvBadDate = headerLine @ [10] @ lit ''A,Bug,2025-01-01,2025-01-01'' @ [10] @
                lit ''B,Bug,amanha,2025-01-03''"

definition parsedBadDate :: parsed where
  "parsedBadDate =
     \<lparr>parsed_data = [strRow ''A'' ''Bug'' ''2025-01-01'' ''2025-01-01'',
                     strRow ''B'' ''Bug'' ''amanha'' ''2025-01-03''],
      meta_fields = Some fullHeader, parsed_errors = []\<rparr>"

text \<open>A row with a date that is no date, before a row closed before it is committed.\<close>

definition csvBadFirst :: jsstring where
  "csvBadFirst = headerLine @ [10] @ lit ''B,Bug,amanha,2025-01-03'' @ [10] @
                 lit ''Z,Bug,2025-01-03,2025-01-01''"

definition parsedBadFirst :: parsed where
  "parsedBadFirst =
     \<lparr>parsed_data = [strRow ''B'' ''Bug'' ''amanha'' ''2025-01-03'',
                     strRow ''Z'' ''Bug'' ''2025-01-03'' ''2025-01-01''],
      meta_fields = Some fullHeader, parsed_errors = []\<rparr>"

text \<open>
  Two files with a quoted cell that spans two lines (34 is the double quote): in the first
  the closed date is no date, in the second the commitment date.
\<close>

definition csvQuotedX :: jsstring where
  "csvQuotedX = headerLine @ [10] @ lit ''A,Bug,2025-01-01,'' @ [34] @ lit ''2025-13-45'' @ [10] @
                lit ''Closed Date: 2025-01-03'' @ [34]"

definition rowQuotedX :: row where
  "rowQuotedX =
     mkRow (JStr (lit ''A'')) (JStr (lit ''Bug'')) (JStr (lit ''2025-01-01''))
       (JStr (lit ''2025-13-45'' @ [10] @ lit ''Closed Date: 2025-01-03''))"

definition parsedQuotedX :: parsed where
  "parsedQuotedX =
     \<lparr>parsed_data = [rowQuotedX], meta_fields = Some fullHeader, parsed_errors = []\<rparr>"

definition csvQuotedY :: jsstring where
  "csvQuotedY = headerLine @ [10] @ lit ''A,Bug,'' @ [34] @ lit ''2025-01-01'' @ [10] @
                lit ''Closed Date: 2025-13-45'' @ [34] @ lit '',2025-01-03''"

definition rowQuotedY :: row where
  "rowQuotedY =
     mkRow (JStr (lit ''A'')) (JStr (lit ''Bug''))
       (JStr (lit ''2025-01-01'' @ [10] @ lit ''Closed Date: 2025-13-45'')) (JStr (lit ''2025-01-03''))"

definition parsedQuotedY :: parsed where
  "parsedQuotedY =
     \<lparr>parsed_data = [rowQuotedY], meta_fields = Some fullHeader, parsed_errors = []\<rparr>"

definition exPapaParse :: "jsstring \<Rightarrow> parsed" where
  "exPapaParse csv =
     (if csv = csvTwo then parsedTwo
      else if csv = csvNight then parsedNight
      else if csv = csvTies then parsedTies
      else if csv = csvReversed then parsedReversed
      else if csv = csvNoTipo then parsedNoTipo
      else if csv = csvBlank then parsedBlank
      else if csv = csvPartial then parsedPartial
      else if csv = csvSpaces then parsedSpaces
      else if csv = csvZero then parsedZero
      else if csv = csvBadDate then parsedBadDate
      else if csv = csvBadFirst then parsedBadFirst
      else if csv = csvQuotedX then parsedQuotedX
      else if csv = csvQuotedY then parsedQuotedY
      else \<lparr>parsed_data = [], meta_fields = None, parsed_errors = []\<rparr>)"

definition exDateParse :: "jsstring \<Rightarrow> int option" where
  "exDateParse s =
     (if s = lit ''2025-01-01'' then Some 1735689600000
      else if s = lit ''2025-01-03'' then Some 1735862400000
      else if s = lit ''2025-01-01T23:00'' then Some 1735772400000
      else if s = lit ''2025-01-02T01:00'' then Some 1735779600000
      else None)"

definition exLocaleDate :: "int \<Rightarrow> jsstring" where
  "exLocaleDate t =
     (if t = 1735689600000 then lit ''01/01/2025''
      else if t = 1735862400000 then lit ''03/01/2025''
      else if t = 1735779600000 then lit ''02/01/2025''
      else [])"

definition exHost :: host where
  "exHost =
     \<lparr>papaParse = exPapaParse, dateParse = exDateParse,
      numberToString = (\<lambda>n. if n = 0 then lit ''0'' else []),
      dateToString = (\<lambda>t. []),
      toLocaleDateString = exLocaleDate,
      toLowerCase = map (\<lambda>c. if 65 \<le> c \<and> c \<le> 90 then c + 32 else c)\<rparr>"

text \<open>The items of the example files.\<close>

definition exRecord :: "string \<Rightarrow> string \<Rightarrow> int \<Rightarrow> int \<Rightarrow> int \<Rightarrow> string \<Rightarrow> item" where
  "exRecord a ty c d n shown =
     \<lparr>item_id = lit a, item_type = lit ty, commitedDate = c, closedDate = d, leadTime = n,
      dateFormatted = lit shown, timestamp = d\<rparr>"

text \<open>The state after the file with the ties has been loaded.\<close>

definition exLoaded :: state where
  "exLoaded = snd (processCSV exHost csvTies initialState)"

definition exItem :: "jsstring \<Rightarrow> int \<Rightarrow> item" where
  "exItem ty n =
     \<lparr>item_id = lit ''A'', item_type = ty, commitedDate = 0, closedDate = (n - 1) * msPerDay,
      leadTime = n, dateFormatted = [], timestamp = (n - 1) * msPerDay\<rparr>"

text \<open>Ten active items with the lead times 1 to 10, out of order, and an inactive one.\<close>

definition exState10 :: state where
  "exState10 =
     initialState\<lparr>
       data := map (exItem (lit ''Bug'')) [3, 1, 2, 10, 9, 8, 7, 6, 5, 4] @ [exItem (lit ''Task'') 50],
       itemTypes := [lit ''Bug'', lit ''Task''],
       typeFilters := [lit ''Bug'' \<mapsto> True, lit ''Task'' \<mapsto> False]\<rparr>"

section \<open>The arithmetic of numbers\<close>

lemma roundTiesEven_ge: "of_int n \<le> q \<Longrightarrow> n \<le> roundTiesEven q"
proof -
  assume "of_int n \<le> q"
  then have "n \<le> \<lfloor>q\<rfloor>" by (simp add: le_floor_iff)
  then show ?thesis by (simp add: roundTiesEven_def Let_def)
qed

lemma roundTiesEven_le: "q < of_int n - 1 / 2 \<Longrightarrow> roundTiesEven q \<le> n - 1"
proof -
  assume a: "q < of_int n - 1 / 2"
  then have "q < of_int n" by simp
  then have f: "\<lfloor>q\<rfloor> \<le> n - 1" by (simp add: floor_less_iff)
  show ?thesis
  proof (cases "\<lfloor>q\<rfloor> = n - 1")
    case True
    with a have "q - of_int \<lfloor>q\<rfloor> < 1 / 2" by simp
    with True show ?thesis by (simp add: roundTiesEven_def Let_def)
  next
    case False
    with f have "\<lfloor>q\<rfloor> + 1 \<le> n - 1" by simp
    then show ?thesis by (simp add: roundTiesEven_def Let_def)
  qed
qed

lemma roundTiesEven_of_int [simp]: "roundTiesEven (of_int n) = n"
  by (simp add: roundTiesEven_def)

lemma binade_bounds:
  assumes "q \<noteq> 0"
  shows "2 powi binade q \<le> \<bar>q\<bar>" and "\<bar>q\<bar> < 2 powi (binade q + 1)"
proof -
  obtain a b where ab: "quotient_of q = (a, b)" by (cases "quotient_of q")
  then have b: "0 < b" and q: "q = of_int a / of_int b"
    by (simp_all add: quotient_of_denom_pos quotient_of_div)
  with assms have a: "0 < \<bar>a\<bar>" by auto
  define la lb where "la = bitlen \<bar>a\<bar>" and "lb = bitlen b"
  from bitlen_bounds [OF a] have la: "2 ^ nat (la - 1) \<le> \<bar>a\<bar>" "\<bar>a\<bar> < 2 ^ nat la"
    by (simp_all add: la_def)
  from bitlen_bounds [OF b] have lb: "2 ^ nat (lb - 1) \<le> b" "b < 2 ^ nat lb"
    by (simp_all add: lb_def)
  have la1: "1 \<le> la" using a by (simp add: la_def bitlen_alt_def)
  have lb1: "1 \<le> lb" using b by (simp add: lb_def bitlen_alt_def)
  have absq: "\<bar>q\<bar> = of_int \<bar>a\<bar> / of_int b" using b by (simp add: q)
  have pa: "(2::rat) powi (la - 1) = 2 ^ nat (la - 1)" and pla: "(2::rat) powi la = 2 ^ nat la"
    and pb: "(2::rat) powi lb = 2 ^ nat lb" and plb: "(2::rat) powi (lb - 1) = 2 ^ nat (lb - 1)"
    using la1 lb1 by (simp_all add: power_int_def)
  have ra: "(2::rat) ^ nat (la - 1) \<le> of_int \<bar>a\<bar>" "of_int \<bar>a\<bar> < (2::rat) ^ nat la"
    using la by (metis of_int_le_iff of_int_numeral of_int_power, metis of_int_less_iff of_int_numeral of_int_power)
  have rb: "(2::rat) ^ nat (lb - 1) \<le> of_int b" "of_int b < (2::rat) ^ nat lb"
    using lb by (metis of_int_le_iff of_int_numeral of_int_power, metis of_int_less_iff of_int_numeral of_int_power)
  have "(2::rat) powi (la - lb - 1) = 2 powi (la - 1) / 2 powi lb"
    using power_int_diff [of "2::rat" "la - 1" lb] by (simp add: algebra_simps)
  also have "\<dots> \<le> of_int \<bar>a\<bar> / of_int b"
    unfolding pa pb using ra(1) rb(2) b by (intro frac_le) simp_all
  finally have lower: "(2::rat) powi (la - lb - 1) \<le> \<bar>q\<bar>" by (simp only: absq)
  have "of_int \<bar>a\<bar> / of_int b < (2::rat) powi la / 2 powi (lb - 1)"
    unfolding pla plb using ra(2) rb(1) by (intro frac_less) simp_all
  also have "\<dots> = 2 powi (la - lb + 1)"
    using power_int_diff [of "2::rat" la "lb - 1"] by (simp add: algebra_simps)
  finally have upper: "\<bar>q\<bar> < (2::rat) powi (la - lb + 1)" by (simp only: absq)
  have bin: "binade q = (if 2 powi (la - lb) \<le> \<bar>q\<bar> then la - lb else la - lb - 1)"
    by (simp add: binade_def ab la_def lb_def)
  show "2 powi binade q \<le> \<bar>q\<bar>" using lower by (simp add: bin)
  show "\<bar>q\<bar> < 2 powi (binade q + 1)" using upper by (auto simp: bin not_le)
qed


lemma binade_less:
  assumes "q \<noteq> 0" and "\<bar>q\<bar> < 2 powi n"
  shows "binade q < n"
proof (rule ccontr)
  assume "\<not> binade q < n"
  then have "(2::rat) powi n \<le> 2 powi binade q" by (intro power_int_increasing) simp_all
  with binade_bounds(1) [OF assms(1)] assms(2) show False by simp
qed

lemma toDouble_nonneg: "0 \<le> q \<Longrightarrow> 0 \<le> toDouble q"
proof (cases "q = 0")
  case True
  then show ?thesis by (simp add: toDouble_def)
next
  case False
  assume "0 \<le> q"
  define u :: rat where "u = 2 powi (binade q - 52)"
  have u: "0 < u" by (simp add: u_def zero_less_power_int)
  with \<open>0 \<le> q\<close> have "of_int 0 \<le> q / u" by simp
  then have "0 \<le> roundTiesEven (q / u)" by (rule roundTiesEven_ge)
  with u False show ?thesis by (simp add: toDouble_def u_def [symmetric])
qed

lemma toDouble_of_int:
  assumes "\<bar>x\<bar> < 2 ^ 53"
  shows "toDouble (of_int x) = of_int x"
proof (cases "x = 0")
  case True
  then show ?thesis by (simp add: toDouble_def)
next
  case False
  let ?q = "of_int x :: rat"
  have q0: "?q \<noteq> 0" using False by simp
  have "\<bar>?q\<bar> < 2 ^ 53" using assms by (metis of_int_abs of_int_less_iff of_int_numeral of_int_power)
  then have "\<bar>?q\<bar> < 2 powi 53" by simp
  with q0 have e: "binade ?q < 53" by (rule binade_less)
  define k where "k = nat (52 - binade ?q)"
  have u: "(2::rat) powi (binade ?q - 52) = 1 / 2 ^ k"
    using e by (simp add: k_def power_int_def field_simps)
  have "?q / (1 / 2 ^ k) = of_int (x * 2 ^ k)" by simp
  then have "roundTiesEven (?q / (1 / 2 ^ k)) = x * 2 ^ k" by (simp only: roundTiesEven_of_int)
  with q0 show ?thesis by (simp add: toDouble_def u)
qed

lemma floor_toDouble_days:
  assumes "0 \<le> x" and "x < 2 ^ 53"
  shows "\<lfloor>toDouble (of_int x / of_int msPerDay)\<rfloor> = x div msPerDay"
proof (cases "x = 0")
  case True
  then show ?thesis by (simp add: toDouble_def)
next
  case False
  define m where "m = msPerDay"
  have m: "m = 86400000" by (simp add: m_def msPerDay_def)
  let ?q = "of_int x / of_int m :: rat"
  define k r where "k = x div m" and "r = x mod m"
  have x: "x = k * m + r" and r: "0 \<le> r" "r \<le> m - 1"
    using m by (simp_all add: k_def r_def)
  have q: "?q = of_int k + of_int r / of_int m" using m by (simp add: x field_simps)
  have q0: "?q \<noteq> 0" using False assms m by simp
  have qpos: "0 < ?q" using False assms m by simp
  have "of_int x < (2::rat) ^ 53" using assms(2) by (metis of_int_less_iff of_int_numeral of_int_power)
  then have "?q < 2 ^ 53 / 86400000" using m by (simp add: divide_strict_right_mono)
  also have "\<dots> < (2::rat) powi 27" by simp
  finally have "\<bar>?q\<bar> < 2 powi 27" using qpos by simp
  with q0 have e: "binade ?q < 27" by (rule binade_less)
  define j where "j = nat (52 - binade ?q)"
  have j: "26 \<le> j" using e by (simp add: j_def)
  define P :: rat where "P = 2 ^ j"
  have "(2::rat) ^ 26 \<le> 2 ^ j" using j by (intro power_increasing) simp_all
  then have P: "67108864 \<le> P" by (simp add: P_def)
  have u: "(2::rat) powi (binade ?q - 52) = 1 / P"
    using e by (simp add: j_def P_def power_int_def field_simps)
  have PZ: "P = of_int (2 ^ j)" by (simp add: P_def)
  have scaled: "?q / (1 / P) = ?q * P" by simp
  have lowq: "of_int (k * 2 ^ j) \<le> ?q * P"
  proof -
    have "0 \<le> (of_int r / of_int m :: rat)" using r m by simp
    then have "of_int k \<le> ?q" unfolding q by simp
    then have "of_int k * P \<le> ?q * P" using P by (intro mult_right_mono) simp_all
    then show ?thesis by (simp add: PZ)
  qed
  have upq: "?q * P < of_int ((k + 1) * 2 ^ j) - 1 / 2"
  proof -
    have "of_int r / (of_int m :: rat) \<le> 1 - 1 / of_int m"
      using r m by (simp add: field_simps)
    then have "?q \<le> of_int (k + 1) - 1 / of_int m" unfolding q by simp
    then have "?q * P \<le> (of_int (k + 1) - 1 / of_int m) * P"
      using P by (intro mult_right_mono) simp_all
    also have "\<dots> = of_int ((k + 1) * 2 ^ j) - P / of_int m"
      by (simp add: PZ algebra_simps)
    also have "\<dots> < of_int ((k + 1) * 2 ^ j) - 1 / 2"
      using P m by (simp add: field_simps)
    finally show ?thesis .
  qed
  from roundTiesEven_ge [OF lowq] have lo: "k * 2 ^ j \<le> roundTiesEven (?q * P)" .
  from roundTiesEven_le [OF upq] have hi: "roundTiesEven (?q * P) \<le> (k + 1) * 2 ^ j - 1" .
  have td: "toDouble ?q = of_int (roundTiesEven (?q * P)) / P"
    using q0 by (simp add: toDouble_def u)
  have Ppos: "0 < P" using P by simp
  have "of_int k \<le> toDouble ?q"
  proof -
    from lo have "(of_int (k * 2 ^ j) :: rat) \<le> of_int (roundTiesEven (?q * P))"
      by (simp only: of_int_le_iff)
    then have "of_int k * P \<le> of_int (roundTiesEven (?q * P))" by (simp add: PZ)
    with Ppos show ?thesis by (simp add: td pos_le_divide_eq)
  qed
  moreover have "toDouble ?q < of_int k + 1"
  proof -
    from hi have "(of_int (roundTiesEven (?q * P)) :: rat) \<le> of_int ((k + 1) * 2 ^ j - 1)"
      by (simp only: of_int_le_iff)
    also have "\<dots> < (of_int k + 1) * P" by (simp add: PZ)
    finally show ?thesis using Ppos by (simp add: td pos_divide_less_eq)
  qed
  ultimately have "\<lfloor>toDouble ?q\<rfloor> = k" by (simp add: floor_unique)
  then show ?thesis by (simp add: k_def m_def)
qed

lemma calcLeadTime_exact:
  assumes "0 \<le> d - c" and "d - c < 2 ^ 53"
  shows "calcLeadTime c d = (d - c) div msPerDay + 1"
proof -
  have "of_int d - of_int c = (of_int (d - c) :: rat)" by simp
  moreover have "toDouble (of_int (d - c)) = of_int (d - c)"
    using assms by (intro toDouble_of_int) simp
  ultimately show ?thesis
    using floor_toDouble_days [OF assms] by (simp add: calcLeadTime_def)
qed

lemma calcLeadTime_pos: "c \<le> d \<Longrightarrow> 1 \<le> calcLeadTime c d"
proof -
  assume "c \<le> d"
  then have "0 \<le> (of_int d - of_int c :: rat)" by simp
  then have "0 \<le> toDouble (of_int d - of_int c)" by (rule toDouble_nonneg)
  then have "0 \<le> toDouble (of_int d - of_int c) / of_int msPerDay"
    by (simp add: msPerDay_def)
  then have "0 \<le> toDouble (toDouble (of_int d - of_int c) / of_int msPerDay)"
    by (rule toDouble_nonneg)
  then show ?thesis by (simp add: calcLeadTime_def)
qed

text \<open>The two instants farthest apart that a Date can hold: the rounding shows.\<close>

lemma calcLeadTime_extreme:
  "calcLeadTime (- 8639999999999999) 8640000000000000 = 200000001
   \<and> (8640000000000000 - (- 8639999999999999)) div msPerDay + 1 = 200000000"
  by code_simp


lemma roundTiesEven_le_succ: "of_int (roundTiesEven q) \<le> q + 1"
proof -
  have "roundTiesEven q \<le> \<lfloor>q\<rfloor> + 1" by (simp add: roundTiesEven_def Let_def)
  then have "(of_int (roundTiesEven q) :: rat) \<le> of_int (\<lfloor>q\<rfloor> + 1)" by (simp only: of_int_le_iff)
  also have "\<dots> \<le> q + 1" by simp
  finally show ?thesis .
qed

lemma toDouble_le: "0 \<le> q \<Longrightarrow> toDouble q \<le> 2 * q"
proof (cases "q = 0")
  case True
  then show ?thesis by (simp add: toDouble_def)
next
  case False
  assume "0 \<le> q"
  define u :: rat where "u = 2 powi (binade q - 52)"
  have u: "0 < u" by (simp add: u_def zero_less_power_int)
  have "u \<le> 2 powi binade q" unfolding u_def by (intro power_int_increasing) simp_all
  also have "\<dots> \<le> \<bar>q\<bar>" using False by (rule binade_bounds(1))
  finally have uq: "u \<le> q" using \<open>0 \<le> q\<close> by simp
  have "of_int (roundTiesEven (q / u)) * u \<le> (q / u + 1) * u"
    using u roundTiesEven_le_succ [of "q / u"] by (intro mult_right_mono) simp_all
  also have "\<dots> = q + u" using u by (simp add: field_simps)
  also have "\<dots> \<le> 2 * q" using uq by simp
  finally show ?thesis using False by (simp add: toDouble_def u_def [symmetric])
qed

lemma calcLeadTime_bound:
  assumes "c \<le> d" and "\<bar>c\<bar> \<le> 8640000000000000" and "\<bar>d\<bar> \<le> 8640000000000000"
  shows "calcLeadTime c d \<le> 800000001"
proof -
  let ?x = "of_int d - of_int c :: rat"
  have x0: "0 \<le> ?x" using assms(1) by simp
  have "d - c \<le> 17280000000000000" using assms(2,3) by simp
  then have "(of_int (d - c) :: rat) \<le> of_int 17280000000000000" by (simp only: of_int_le_iff)
  then have x1: "?x \<le> 17280000000000000" by simp
  have t0: "0 \<le> toDouble ?x" using x0 by (rule toDouble_nonneg)
  have t1: "toDouble ?x \<le> 34560000000000000" using toDouble_le [OF x0] x1 by simp
  let ?y = "toDouble ?x / of_int msPerDay"
  have y0: "0 \<le> ?y" using t0 by (simp add: msPerDay_def)
  have y1: "?y \<le> 400000000" using t1 by (simp add: msPerDay_def)
  have "toDouble ?y \<le> 800000000" using toDouble_le [OF y0] y1 by simp
  then have "\<lfloor>toDouble ?y\<rfloor> \<le> 800000000" by (simp add: floor_le_iff)
  then show ?thesis by (simp add: calcLeadTime_def)
qed

section \<open>How a row, the rows and the whole file are processed\<close>

lemma processRow_Inr:
  "processRow h r = Inr it \<longleftrightarrow>
     (\<exists>c d. commitedOf h r = Some c \<and> closedOf h r = Some d \<and> c \<le> d \<and>
        it = \<lparr>item_id = idOf h r, item_type = typeOf h r, commitedDate = c, closedDate = d,
               leadTime = calcLeadTime c d, dateFormatted = toLocaleDateString h d, timestamp = d\<rparr>)"
  by (auto simp: processRow_def Let_def split: option.splits)


lemma processRow_inconsistent:
  "commitedOf h r = Some c \<Longrightarrow> closedOf h r = Some d \<Longrightarrow> d < c \<Longrightarrow>
   processRow h r = Inl (Error (inconsistentDateMessage (idOf h r)
        (js_String h (cell r col_Closed)) (js_String h (cell r col_Commited))))"
  by (auto simp: processRow_def Let_def split: option.splits)

lemma mapRows_Inr: "mapRows h rs = Inr its \<longleftrightarrow> map (processRow h) rs = map Inr its"
proof (induction rs arbitrary: its)
  case Nil
  show ?case by auto
next
  case (Cons r rs)
  show ?case
  proof (cases "processRow h r")
    case (Inl e)
    then show ?thesis by (cases its) auto
  next
    case (Inr it)
    show ?thesis
    proof (cases "mapRows h rs")
      case (Inl e)
      have "\<And>xs. map (processRow h) rs \<noteq> map Inr xs"
        using Cons.IH Inl by (metis sum.distinct(1))
      with Inl Inr show ?thesis by (cases its) auto
    next
      case mr: (Inr its')
      with Cons.IH [of its'] have "map (processRow h) rs = map Inr its'" by simp
      with Inr mr show ?thesis by (cases its) (auto simp: inj_map_eq_map)
    qed
  qed
qed

lemma mapRows_Inl:
  "mapRows h rs = Inl e \<longleftrightarrow>
     (\<exists>pre r post its. rs = pre @ r # post \<and> map (processRow h) pre = map Inr its \<and>
        processRow h r = Inl e)"
proof (induction rs)
  case Nil
  show ?case by simp
next
  case (Cons x rs)
  show ?case
  proof (cases "processRow h x")
    case (Inl e')
    show ?thesis
    proof
      assume "mapRows h (x # rs) = Inl e"
      with Inl have "e' = e" by simp
      with Inl have "x # rs = [] @ x # rs \<and> map (processRow h) [] = map Inr [] \<and> processRow h x = Inl e"
        by simp
      then show "\<exists>pre r post its. x # rs = pre @ r # post \<and> map (processRow h) pre = map Inr its \<and>
        processRow h r = Inl e" by blast
    next
      assume "\<exists>pre r post its. x # rs = pre @ r # post \<and> map (processRow h) pre = map Inr its \<and>
        processRow h r = Inl e"
      then obtain pre r post its where *: "x # rs = pre @ r # post"
        "map (processRow h) pre = map Inr its" "processRow h r = Inl e" by blast
      show "mapRows h (x # rs) = Inl e"
      proof (cases pre)
        case Nil
        with * Inl show ?thesis by simp
      next
        case (Cons y ys)
        with * have "processRow h x = Inr (hd its)" by (cases its) auto
        with Inl show ?thesis by simp
      qed
    qed
  next
    case (Inr it)
    show ?thesis
    proof
      assume a: "mapRows h (x # rs) = Inl e"
      with Inr have "mapRows h rs = Inl e" by (simp split: sum.splits)
      with Cons.IH obtain pre r post its where *: "rs = pre @ r # post"
        "map (processRow h) pre = map Inr its" "processRow h r = Inl e" by blast
      with Inr have "x # rs = (x # pre) @ r # post \<and> map (processRow h) (x # pre) = map Inr (it # its) \<and> processRow h r = Inl e"
        by simp
      then show "\<exists>pre r post its. x # rs = pre @ r # post \<and> map (processRow h) pre = map Inr its \<and>
        processRow h r = Inl e" by blast
    next
      assume "\<exists>pre r post its. x # rs = pre @ r # post \<and> map (processRow h) pre = map Inr its \<and>
        processRow h r = Inl e"
      then obtain pre r post its where *: "x # rs = pre @ r # post"
        "map (processRow h) pre = map Inr its" "processRow h r = Inl e" by blast
      show "mapRows h (x # rs) = Inl e"
      proof (cases pre)
        case Nil
        with * Inr show ?thesis by simp
      next
        case (Cons y ys)
        with * have "rs = ys @ r # post" "map (processRow h) ys = map Inr (tl its)"
          by (cases its; auto)+
        with * Cons.IH have "mapRows h rs = Inl e" by blast
        with Inr show ?thesis by simp
      qed
    qed
  qed
qed

lemma processedData_Inr:
  "processedData h p = Inr pd \<longleftrightarrow>
     missingColumns p = [] \<and> validRows p \<noteq> [] \<and>
     (\<exists>its. map (processRow h) (validRows p) = map Inr its \<and> pd = sort_key timestamp its)"
proof (cases "mapRows h (validRows p)")
  case (Inl e)
  then have "\<And>its. map (processRow h) (validRows p) \<noteq> map Inr its"
    by (metis mapRows_Inr sum.distinct(1))
  with Inl show ?thesis by (simp add: processedData_def)
next
  case (Inr its)
  then have "\<And>xs. map (processRow h) (validRows p) = map Inr xs \<longleftrightarrow> xs = its"
    by (metis mapRows_Inr sum.inject(2))
  with Inr show ?thesis by (auto simp: processedData_def)
qed

lemma processCSV_success:
  "processCSV h csv s = (None, s') \<longleftrightarrow>
     (\<exists>pd. processedData h (papaParse h csv) = Inr pd \<and>
        s' = s\<lparr>data := pd, itemTypes := uniqueTypes pd, typeFilters := initialFilters (uniqueTypes pd)\<rparr>)"
  by (auto simp: processCSV_def split: sum.splits)

lemma processCSV_failure:
  "processCSV h csv s = (Some e, s') \<longleftrightarrow> processedData h (papaParse h csv) = Inl e \<and> s' = s"
  by (auto simp: processCSV_def split: sum.splits)

lemma floor_days:
  "(d - c) div msPerDay =
     dayNumber off d - dayNumber off c - (if timeOfDay off d < timeOfDay off c then 1 else 0)"
proof -
  define m where "m = msPerDay"
  have mpos: "0 < m" by (simp add: m_def msPerDay_def)
  define qd rd qc rc where "qd = (d + off) div m" and "rd = (d + off) mod m"
    and "qc = (c + off) div m" and "rc = (c + off) mod m"
  have d: "d + off = m * qd + rd" and c: "c + off = m * qc + rc"
    by (simp_all add: qd_def rd_def qc_def rc_def)
  have rd: "0 \<le> rd" "rd < m" and rc: "0 \<le> rc" "rc < m"
    using mpos by (simp_all add: rd_def rc_def)
  have diff: "d - c = m * (qd - qc) + (rd - rc)"
    using d c by (simp add: algebra_simps)
  show ?thesis
  proof (cases "rd < rc")
    case True
    have "d - c = m * (qd - qc - 1) + (rd - rc + m)"
      using diff by (simp add: algebra_simps)
    moreover have "0 \<le> rd - rc + m" "rd - rc + m < m" using True rd rc by simp_all
    ultimately have "(d - c) div m = qd - qc - 1"
      by (metis int_div_pos_eq mult.commute)
    with True show ?thesis
      by (simp add: dayNumber_def timeOfDay_def m_def qd_def qc_def rd_def rc_def)
  next
    case False
    have "0 \<le> rd - rc" "rd - rc < m" using False rd rc by simp_all
    with diff have "(d - c) div m = qd - qc"
      by (metis int_div_pos_eq mult.commute)
    with False show ?thesis
      by (simp add: dayNumber_def timeOfDay_def m_def qd_def qc_def rd_def rc_def)
  qed
qed

lemma processedData_schema:
  "missingColumns p \<noteq> [] \<Longrightarrow>
   processedData h p = Inl (Error (schemaMessage (missingColumns p) (headers p)))"
  by (simp add: processedData_def)

lemma processedData_noValid:
  "missingColumns p = [] \<Longrightarrow> validRows p = [] \<Longrightarrow>
   processedData h p = Inl (Error noValidDataMessage)"
  by (simp add: processedData_def)

lemma processedData_rows:
  "missingColumns p = [] \<Longrightarrow> validRows p \<noteq> [] \<Longrightarrow>
   processedData h p =
     (case mapRows h (validRows p) of Inl e \<Rightarrow> Inl e | Inr its \<Rightarrow> Inr (sort_key timestamp its))"
  by (simp add: processedData_def)

lemma missingColumns_set:
  "set (missingColumns p) = set requiredColumns - set (headers p)"
  by (auto simp: missingColumns_def)

lemma missingColumns_empty: "missingColumns p = [] \<longleftrightarrow> set requiredColumns \<subseteq> set (headers p)"
  by (auto simp: missingColumns_def filter_empty_conv)

lemma requiredColumns_distinct: "distinct requiredColumns"
  by (simp add: requiredColumns_def col_ID_def col_Tipo_def col_Commited_def col_Closed_def lit_def)

lemma expectedStructure_join: "expectedStructure = join (lit '', '') requiredColumns"
  by (simp add: expectedStructure_def requiredColumns_def col_ID_def col_Tipo_def
        col_Commited_def col_Closed_def lit_def)

lemma noValid_not_schema: "noValidDataMessage \<noteq> schemaMessage missing hs"
  by (simp add: noValidDataMessage_def schemaMessage_def lit_def)

lemma mapRows_first_failure:
  assumes "rs = pre @ r # post" and "\<forall>x \<in> set pre. \<exists>it. processRow h x = Inr it"
    and "processRow h r = Inl e"
  shows "mapRows h rs = Inl e"
proof -
  have "\<exists>its. map (processRow h) pre = map Inr its"
    using assms(2)
  proof (induction pre)
    case Nil
    show ?case by simp
  next
    case (Cons x xs)
    then obtain it its where "processRow h x = Inr it" "map (processRow h) xs = map Inr its"
      by auto
    then have "map (processRow h) (x # xs) = map Inr (it # its)" by simp
    then show ?case by blast
  qed
  with assms(1,3) show ?thesis unfolding mapRows_Inl by blast
qed

lemma mapRows_some_failure:
  assumes "r \<in> set rs" and "processRow h r = Inl e0"
  shows "\<exists>e. mapRows h rs = Inl e \<and> (\<exists>r' \<in> set rs. processRow h r' = Inl e)"
proof (cases "mapRows h rs")
  case (Inl e)
  then obtain pre r' post where "rs = pre @ r' # post" "processRow h r' = Inl e"
    unfolding mapRows_Inl by blast
  then have "r' \<in> set rs" by simp
  with Inl \<open>processRow h r' = Inl e\<close> show ?thesis by blast
next
  case (Inr its)
  then have "map (processRow h) rs = map Inr its" by (simp add: mapRows_Inr)
  with assms(1) have "processRow h r \<in> set (map Inr its)" by (metis image_eqI set_map)
  with assms(2) show ?thesis by auto
qed

lemma handleFileUpload_failure:
  assumes "processedData h (papaParse h csv) = Inl e"
  shows "data (handleFileUpload h (Some \<lparr>file_name = n, file_text = Inr csv\<rparr>) s) = data s"
    and "itemTypes (handleFileUpload h (Some \<lparr>file_name = n, file_text = Inr csv\<rparr>) s) = itemTypes s"
    and "typeFilters (handleFileUpload h (Some \<lparr>file_name = n, file_text = Inr csv\<rparr>) s) = typeFilters s"
    and "endsWith (toLowerCase h n) (lit ''.csv'') \<Longrightarrow>
         error (handleFileUpload h (Some \<lparr>file_name = n, file_text = Inr csv\<rparr>) s) =
           Some (processingErrorPrefix @ message e)"
  using assms by (simp_all add: handleFileUpload_def processCSV_def Let_def)

lemma processRow_item:
  assumes "processRow h r = Inr it"
  shows "commitedDate it \<le> closedDate it" and "timestamp it = closedDate it"
    and "leadTime it = calcLeadTime (commitedDate it) (closedDate it)"
    and "item_id it = idOf h r" and "item_type it = typeOf h r"
    and "commitedOf h r = Some (commitedDate it)" and "closedOf h r = Some (closedDate it)"
  using assms by (auto simp: processRow_Inr)

lemma map_Inr_member:
  assumes "map f rs = map Inr its" and "it \<in> set its"
  shows "\<exists>r \<in> set rs. f r = Inr it"
proof -
  from assms(2) have "Inr it \<in> set (map f rs)" unfolding assms(1) by simp
  then show ?thesis by auto
qed

lemma processedData_member:
  assumes "processedData h p = Inr pd" and "it \<in> set pd"
  shows "\<exists>r \<in> set (validRows p). processRow h r = Inr it"
proof -
  from assms(1) obtain its where its: "map (processRow h) (validRows p) = map Inr its"
    "pd = sort_key timestamp its" by (auto simp: processedData_Inr)
  with assms(2) have "it \<in> set its" by simp
  with its(1) show ?thesis by (rule map_Inr_member)
qed

lemma processedData_item_ok:
  assumes "processedData h p = Inr pd" and "it \<in> set pd"
  shows "commitedDate it \<le> closedDate it \<and> 1 \<le> leadTime it
       \<and> leadTime it = calcLeadTime (commitedDate it) (closedDate it)"
proof -
  from processedData_member [OF assms] obtain r where "processRow h r = Inr it" by blast
  from processRow_item(1,3) [OF this] show ?thesis by (simp add: calcLeadTime_pos)
qed

lemma handleFileUpload_data:
  "data (handleFileUpload h fo s) = data s
   \<or> (\<exists>csv. processedData h (papaParse h csv) = Inr (data (handleFileUpload h fo s)))"
  by (auto simp: handleFileUpload_def processCSV_def Let_def split: option.splits sum.splits)

lemma tryAutoLoad_data:
  "data (tryAutoLoad h rf s) = data s
   \<or> (\<exists>csv. processedData h (papaParse h csv) = Inr (data (tryAutoLoad h rf s)))"
  by (auto simp: tryAutoLoad_def processCSV_def Let_def split: sum.splits)

lemma step_data:
  "data (step h s a) = data s \<or> data (step h s a) = []
   \<or> (\<exists>csv. processedData h (papaParse h csv) = Inr (data (step h s a)))"
proof (cases a)
  case (Upload fo)
  with handleFileUpload_data [of h fo s] show ?thesis by auto
next
  case (AutoLoad rf)
  with tryAutoLoad_data [of h rf s] show ?thesis by auto
qed (simp_all add: toggleTypeFilter_def importNewCSV_def)

lemma run_snoc: "run h (as @ [a]) = step h (run h as) a"
  by (simp add: run_def)

lemma run_items_ok:
  "it \<in> set (data (run h as)) \<Longrightarrow>
   commitedDate it \<le> closedDate it \<and> 1 \<le> leadTime it
   \<and> leadTime it = calcLeadTime (commitedDate it) (closedDate it)"
proof (induction as arbitrary: it rule: rev_induct)
  case Nil
  then show ?case by (simp add: run_def initialState_def)
next
  case (snoc a as)
  from step_data [of h "run h as" a] show ?case
  proof (elim disjE exE)
    assume "data (step h (run h as) a) = data (run h as)"
    with snoc.prems have "it \<in> set (data (run h as))" by (simp add: run_snoc)
    then show ?thesis by (rule snoc.IH)
  next
    assume "data (step h (run h as) a) = []"
    with snoc.prems show ?thesis by (simp add: run_snoc)
  next
    fix csv
    assume pd: "processedData h (papaParse h csv) = Inr (data (step h (run h as) a))"
    from snoc.prems have "it \<in> set (data (step h (run h as) a))" by (simp add: run_snoc)
    with pd show ?thesis by (rule processedData_item_ok)
  qed
qed

lemma trim_empty_iff: "trim s = [] \<longleftrightarrow> (\<forall>c \<in> set s. isWhiteSpace c)"
proof
  assume "trim s = []"
  then have all: "\<forall>x \<in> set (dropWhile isWhiteSpace s). isWhiteSpace x"
    unfolding trim_def rev_is_Nil_conv dropWhile_eq_Nil_conv set_rev .
  have "dropWhile isWhiteSpace s = []"
  proof (rule ccontr)
    assume ne: "dropWhile isWhiteSpace s \<noteq> []"
    then have "\<not> isWhiteSpace (hd (dropWhile isWhiteSpace s))" by (rule hd_dropWhile)
    moreover from ne have "hd (dropWhile isWhiteSpace s) \<in> set (dropWhile isWhiteSpace s)"
      by (rule hd_in_set)
    ultimately show False using all by blast
  qed
  then show "\<forall>c \<in> set s. isWhiteSpace c" unfolding dropWhile_eq_Nil_conv .
next
  assume "\<forall>c \<in> set s. isWhiteSpace c"
  then have d: "dropWhile isWhiteSpace s = []" unfolding dropWhile_eq_Nil_conv .
  show "trim s = []" unfolding trim_def d by simp
qed

lemma rowValid_required: "rowValid r \<longleftrightarrow> (\<forall>k \<in> set requiredColumns. truthy (cell r k))"
  by (simp add: rowValid_def requiredColumns_def)




lemma processRow_Inl:
  assumes "processRow h r = Inl e"
  shows "e = Error (invalidDateMessage (idOf h r) (commitedText h r) (closedText h r))
       \<or> e = Error (inconsistentDateMessage (idOf h r) (closedText h r) (commitedText h r))"
  using assms by (auto simp: processRow_def Let_def split: option.splits if_splits)


lemma floor_days_zones:
  "(d - c) div msPerDay =
     dayNumber od d - dayNumber oc c
     + (timeOfDay od d - timeOfDay oc c - (od - oc)) div msPerDay"
proof -
  have d: "d + od = dayNumber od d * msPerDay + timeOfDay od d"
    and c: "c + oc = dayNumber oc c * msPerDay + timeOfDay oc c"
    by (simp_all add: dayNumber_def timeOfDay_def)
  have "d - c = (timeOfDay od d - timeOfDay oc c - (od - oc))
      + (dayNumber od d - dayNumber oc c) * msPerDay"
    using d c by (simp add: algebra_simps)
  then have "(d - c) div msPerDay =
      ((timeOfDay od d - timeOfDay oc c - (od - oc))
        + (dayNumber od d - dayNumber oc c) * msPerDay) div msPerDay" by simp
  also have "\<dots> = (timeOfDay od d - timeOfDay oc c - (od - oc)) div msPerDay
      + (dayNumber od d - dayNumber oc c)"
  proof -
    have "msPerDay \<noteq> 0" by (simp add: msPerDay_def)
    then show ?thesis by simp
  qed
  finally show ?thesis by simp
qed

lemma newDate_range: "newDate h s = Some t \<Longrightarrow> \<bar>t\<bar> \<le> 8640000000000000"
  by (auto simp: newDate_def timeClip_def split: option.splits if_splits)

lemma processRow_range:
  assumes "processRow h r = Inr it"
  shows "\<bar>commitedDate it\<bar> \<le> 8640000000000000" and "\<bar>closedDate it\<bar> \<le> 8640000000000000"
  using processRow_item(6,7) [OF assms] by (auto dest: newDate_range)

lemma mapRows_first_date_failure:
  assumes "r \<in> set rs" and "processRow h r = Inl e0"
  shows "\<exists>e pre0 r0 post0. mapRows h rs = Inl e \<and> rs = pre0 @ r0 # post0
           \<and> (\<forall>x \<in> set pre0. \<exists>it. processRow h x = Inr it)
           \<and> processRow h r0 = Inl e
           \<and> (e = Error (invalidDateMessage (idOf h r0) (commitedText h r0) (closedText h r0))
                \<or> e = Error (inconsistentDateMessage (idOf h r0) (closedText h r0)
                                (commitedText h r0)))"
proof -
  from mapRows_some_failure [OF assms] obtain e where e: "mapRows h rs = Inl e" by blast
  then obtain pre0 r0 post0 its where split: "rs = pre0 @ r0 # post0"
    "map (processRow h) pre0 = map Inr its" "processRow h r0 = Inl e"
    unfolding mapRows_Inl by blast
  have "\<forall>x \<in> set pre0. \<exists>it. processRow h x = Inr it"
  proof
    fix x assume "x \<in> set pre0"
    then have "processRow h x \<in> set (map (processRow h) pre0)" by simp
    then show "\<exists>it. processRow h x = Inr it" unfolding split(2) by auto
  qed
  with e split(1,3) processRow_Inl [OF split(3)] show ?thesis by blast
qed

section \<open>The example host at work\<close>

lemma cell_mkRow:
  "cell (mkRow a b c d) col_ID = a"
  "cell (mkRow a b c d) col_Tipo = b"
  "cell (mkRow a b c d) col_Commited = c"
  "cell (mkRow a b c d) col_Closed = d"
  by (simp_all add: cell_def mkRow_def col_ID_def col_Tipo_def col_Commited_def col_Closed_def
        lit_def)

lemma rowValid_mkRow: "rowValid (mkRow a b c d) \<longleftrightarrow> truthy a \<and> truthy b \<and> truthy c \<and> truthy d"
  by (simp add: rowValid_def cell_mkRow)

lemma rowValid_strRow:
  "rowValid (strRow a b c d) \<longleftrightarrow> a \<noteq> [] \<and> b \<noteq> [] \<and> c \<noteq> [] \<and> d \<noteq> []"
  by (simp add: rowValid_mkRow strRow_def lit_def)

lemma missing_fullHeader: "meta_fields p = Some fullHeader \<Longrightarrow> missingColumns p = []"
  by (simp add: missingColumns_def headers_def fullHeader_def requiredColumns_def
        col_ID_def col_Tipo_def col_Commited_def col_Closed_def)

lemmas csv_defs =
  csvTwo_def csvNight_def csvTies_def csvReversed_def csvNoTipo_def csvBlank_def
  csvPartial_def csvSpaces_def csvZero_def csvBadDate_def csvBadFirst_def csvQuotedX_def
  csvQuotedY_def
  headerLine_def lit_def

lemma exParse_Two: "papaParse exHost csvTwo = parsedTwo"
  by (simp add: exHost_def exPapaParse_def)

lemma exParse_Night: "papaParse exHost csvNight = parsedNight"
  by (simp add: exHost_def exPapaParse_def csv_defs)

lemma exParse_Ties: "papaParse exHost csvTies = parsedTies"
  by (simp add: exHost_def exPapaParse_def csv_defs)

lemma exParse_Reversed: "papaParse exHost csvReversed = parsedReversed"
  by (simp add: exHost_def exPapaParse_def csv_defs)

lemma exParse_NoTipo: "papaParse exHost csvNoTipo = parsedNoTipo"
  by (simp add: exHost_def exPapaParse_def csv_defs)

lemma exParse_Blank: "papaParse exHost csvBlank = parsedBlank"
  by (simp add: exHost_def exPapaParse_def csv_defs)



lemma exParse_Zero: "papaParse exHost csvZero = parsedZero"
  by (simp add: exHost_def exPapaParse_def csv_defs)




lemmas row_eval =
  processRow_def strRow_def cell_mkRow trim_def isWhiteSpace_def lit_def exHost_def
  exDateParse_def exLocaleDate_def newDate_def timeClip_def calcLeadTime_exact msPerDay_def
  exRecord_def

lemma exRow_A:
  "processRow exHost (strRow ''A'' ''Bug'' ''2025-01-01'' ''2025-01-01'') =
     Inr (exRecord ''A'' ''Bug'' 1735689600000 1735689600000 1 ''01/01/2025'')"
  by (simp add: row_eval)

lemma exRow_B:
  "processRow exHost (strRow ''B'' ''Bug'' ''2025-01-01'' ''2025-01-03'') =
     Inr (exRecord ''B'' ''Bug'' 1735689600000 1735862400000 3 ''03/01/2025'')"
  by (simp add: row_eval)

lemma exRow_Night:
  "processRow exHost (strRow ''A'' ''Bug'' ''2025-01-01T23:00'' ''2025-01-02T01:00'') =
     Inr (exRecord ''A'' ''Bug'' 1735772400000 1735779600000 1 ''02/01/2025'')"
  by (simp add: row_eval)

lemma exRow_TiesA:
  "processRow exHost (strRow ''A'' ''Bug'' ''2025-01-01'' ''2025-01-03'') =
     Inr (exRecord ''A'' ''Bug'' 1735689600000 1735862400000 3 ''03/01/2025'')"
  by (simp add: row_eval)

lemma exRow_TiesB:
  "processRow exHost (strRow ''B'' ''Task'' ''2025-01-01'' ''2025-01-01'') =
     Inr (exRecord ''B'' ''Task'' 1735689600000 1735689600000 1 ''01/01/2025'')"
  by (simp add: row_eval)

lemma exRow_TiesC:
  "processRow exHost (strRow ''C'' ''Bug'' ''2025-01-01'' ''2025-01-03'') =
     Inr (exRecord ''C'' ''Bug'' 1735689600000 1735862400000 3 ''03/01/2025'')"
  by (simp add: row_eval)

lemma exRow_Spaces:
  "processRow exHost (strRow ''   '' ''Bug'' ''2025-01-01'' ''2025-01-01'') =
     Inr (exRecord [] ''Bug'' 1735689600000 1735689600000 1 ''01/01/2025'')"
  by (simp add: row_eval)

lemma exRow_Z:
  "processRow exHost (strRow ''Z'' ''Bug'' ''2025-01-03'' ''2025-01-01'') =
     Inl (Error (inconsistentDateMessage (lit ''Z'') (lit ''2025-01-01'') (lit ''2025-01-03'')))"
  by (simp add: row_eval)

lemma exRow_BadDate:
  "processRow exHost (strRow ''B'' ''Bug'' ''amanha'' ''2025-01-03'') =
     Inl (Error (invalidDateMessage (lit ''B'') (lit ''amanha'') (lit ''2025-01-03'')))"
  by (simp add: row_eval)

lemmas file_eval =
  processCSV_def processedData_def validRows_def missing_fullHeader rowValid_strRow
  rowValid_mkRow

lemma exFile_Two:
  "processCSV exHost csvTwo s =
     (None, s\<lparr>data := [exRecord ''A'' ''Bug'' 1735689600000 1735689600000 1 ''01/01/2025'',
                       exRecord ''B'' ''Bug'' 1735689600000 1735862400000 3 ''03/01/2025''],
               itemTypes := [lit ''Bug''], typeFilters := [lit ''Bug'' \<mapsto> True]\<rparr>)"
  by (simp add: file_eval exParse_Two parsedTwo_def exRow_A exRow_B exRecord_def
        uniqueTypes_def setOrder_def initialFilters_def)

lemma exFile_Ties:
  "processCSV exHost csvTies s =
     (None, s\<lparr>data := [exRecord ''B'' ''Task'' 1735689600000 1735689600000 1 ''01/01/2025'',
                       exRecord ''A'' ''Bug'' 1735689600000 1735862400000 3 ''03/01/2025'',
                       exRecord ''C'' ''Bug'' 1735689600000 1735862400000 3 ''03/01/2025''],
               itemTypes := [lit ''Task'', lit ''Bug''],
               typeFilters := [lit ''Task'' \<mapsto> True, lit ''Bug'' \<mapsto> True]\<rparr>)"
  by (simp add: file_eval exParse_Ties parsedTies_def exRow_TiesA exRow_TiesB exRow_TiesC
        exRecord_def uniqueTypes_def setOrder_def initialFilters_def lit_def)

lemma exLoaded_data:
  "data exLoaded = [exRecord ''B'' ''Task'' 1735689600000 1735689600000 1 ''01/01/2025'',
                    exRecord ''A'' ''Bug'' 1735689600000 1735862400000 3 ''03/01/2025'',
                    exRecord ''C'' ''Bug'' 1735689600000 1735862400000 3 ''03/01/2025'']"
  by (simp add: exLoaded_def exFile_Ties)

lemma exDates_Z:
  "commitedOf exHost (strRow ''Z'' ''Bug'' ''2025-01-03'' ''2025-01-01'') = Some 1735862400000"
  "closedOf exHost (strRow ''Z'' ''Bug'' ''2025-01-03'' ''2025-01-01'') = Some 1735689600000"
  by (simp_all add: row_eval)

lemma exFile_Reversed:
  "processedData exHost parsedReversed =
     Inl (Error (inconsistentDateMessage (lit ''Z'') (lit ''2025-01-01'') (lit ''2025-01-03'')))"
  by (simp add: file_eval parsedReversed_def exRow_A exRow_Z)

lemma exHeaders_NoTipo:
  "headers (papaParse exHost csvNoTipo) = [lit ''ID'', lit ''Tipo'', lit ''Commited Date'']"
  by (simp add: exParse_NoTipo parsedNoTipo_def headers_def)

lemma exMissing_NoTipo:
  "missingColumns (papaParse exHost csvNoTipo) = [lit ''Tipo de Item'', lit ''Closed Date'']"
  by (simp add: missingColumns_def exHeaders_NoTipo requiredColumns_def col_ID_def col_Tipo_def
        col_Commited_def col_Closed_def lit_def)

lemma exRows_Ties:
  "map (processRow exHost) (validRows (papaParse exHost csvTies)) =
     map Inr [exRecord ''A'' ''Bug'' 1735689600000 1735862400000 3 ''03/01/2025'',
              exRecord ''B'' ''Task'' 1735689600000 1735689600000 1 ''01/01/2025'',
              exRecord ''C'' ''Bug'' 1735689600000 1735862400000 3 ''03/01/2025'']"
  by (simp add: exParse_Ties parsedTies_def validRows_def rowValid_strRow
        exRow_TiesA exRow_TiesB exRow_TiesC)

lemma exLoaded_result: "processCSV exHost csvTies initialState = (None, exLoaded)"
  by (simp add: exLoaded_def exFile_Ties)

lemma exThrow_Reversed:
  "processCSV exHost csvReversed s =
     (Some (Error (inconsistentDateMessage (lit ''Z'') (lit ''2025-01-01'') (lit ''2025-01-03''))), s)"
  by (simp add: processCSV_def exParse_Reversed exFile_Reversed)

lemma exRun_data:
  "data (run exHost [AutoLoad (Inr csvTwo), Toggle (lit ''Bug''),
           Upload (Some \<lparr>file_name = lit ''novo.csv'', file_text = Inr csvReversed\<rparr>)]) =
     [exRecord ''A'' ''Bug'' 1735689600000 1735689600000 1 ''01/01/2025'',
      exRecord ''B'' ''Bug'' 1735689600000 1735862400000 3 ''03/01/2025'']"
  by (simp add: run_def tryAutoLoad_def exFile_Two toggleTypeFilter_def handleFileUpload_def
        exThrow_Reversed Let_def)


lemma trim_spaces: "trim (lit ''   '') = []"
  by (simp add: trim_def isWhiteSpace_def lit_def)



lemma exValid_Zero:
  "validRows (papaParse exHost csvZero) =
     [strRow ''   '' ''Bug'' ''2025-01-01'' ''2025-01-01'',
      strRow ''B'' ''Bug'' ''2025-01-01'' ''2025-01-03'']"
  by (simp add: exParse_Zero validRows_def parsedZero_def rowValid_mkRow rowValid_strRow)

lemma exFile_Zero:
  "processCSV exHost csvZero s =
     (None, s\<lparr>data := [exRecord [] ''Bug'' 1735689600000 1735689600000 1 ''01/01/2025'',
                       exRecord ''B'' ''Bug'' 1735689600000 1735862400000 3 ''03/01/2025''],
               itemTypes := [lit ''Bug''], typeFilters := [lit ''Bug'' \<mapsto> True]\<rparr>)"
  using exValid_Zero
  by (simp add: processCSV_def processedData_def exParse_Zero missing_fullHeader parsedZero_def
        exRow_Spaces exRow_B exRecord_def uniqueTypes_def setOrder_def initialFilters_def)





text \<open>
  Two pairs of instants in New York, where the offset changes between them. From 00:00 to
  23:30 on 2 November 2025, one calendar day and 24.5 hours, the lead time is 2; from noon
  on 8 March 2025 to noon on 9 March, two calendar days and 23 hours, it is 1.
\<close>

lemma exDaylightSaving:
  "calcLeadTime 1762056000000 1762144200000 = 2
   \<and> dayNumber (- 14400000) 1762056000000 = dayNumber (- 18000000) 1762144200000
   \<and> timeOfDay (- 14400000) 1762056000000 = 0
   \<and> timeOfDay (- 18000000) 1762144200000 = 84600000
   \<and> (84600000 - 0 - (- 18000000 - (- 14400000))) div msPerDay = 1
   \<and> calcLeadTime 1741453200000 1741536000000 = 1
   \<and> dayNumber (- 14400000) 1741536000000 - dayNumber (- 18000000) 1741453200000 = 1
   \<and> timeOfDay (- 18000000) 1741453200000 = 43200000
   \<and> timeOfDay (- 14400000) 1741536000000 = 43200000
   \<and> (43200000 - 43200000 - (- 14400000 - (- 18000000))) div msPerDay = - 1"
  by (simp add: calcLeadTime_exact msPerDay_def dayNumber_def timeOfDay_def)

lemma exParse_BadFirst: "papaParse exHost csvBadFirst = parsedBadFirst"
  by (simp add: exHost_def exPapaParse_def csv_defs)

lemma exValid_BadFirst:
  "validRows (papaParse exHost csvBadFirst) =
     [strRow ''B'' ''Bug'' ''amanha'' ''2025-01-03'',
      strRow ''Z'' ''Bug'' ''2025-01-03'' ''2025-01-01'']"
  by (simp add: exParse_BadFirst parsedBadFirst_def validRows_def rowValid_strRow)

lemma exThrow_BadFirst:
  "processCSV exHost csvBadFirst s =
     (Some (Error (invalidDateMessage (lit ''B'') (lit ''amanha'') (lit ''2025-01-03''))), s)"
  by (simp add: file_eval exParse_BadFirst parsedBadFirst_def exRow_BadDate)

section \<open>The lead time of a row\<close>

text \<open>
  C1, as the code has it. For every row that survives validation in a successful
  ingestion, the data set holds the item made from it, closed no earlier than committed,
  and its lead time is \<open>Math.floor((closed - committed) / 86400000) + 1\<close> on the two parsed
  instants as they are, in the arithmetic of numbers: nothing truncates them to days. For
  two instants less than \<open>2 ^ 53\<close> milliseconds apart the following hold. The lead time is
  the exact whole number of elapsed 24-hour periods plus 1, so that a row closed less than
  24 hours after its commitment gets the lead time 1. With the calendar day and the time
  of day of each instant counted at the offset from UTC in force at that instant, it is
  the difference of the calendar days, plus 1, plus the whole number of days (rounded
  down) in the difference of the times of day less the change of offset. With one offset
  for both instants it is therefore the difference of the calendar days plus 1 when the
  time of day of the closing is not earlier than that of the commitment and one less
  otherwise, and a row committed and closed on the same calendar day gets the lead time 1.
\<close>

theorem leadTime_untruncated:
  assumes "processCSV h csv s = (None, s')" and "r \<in> set (validRows (papaParse h csv))"
  shows "\<exists>it \<in> set (data s'). processRow h r = Inr it
       \<and> commitedOf h r = Some (commitedDate it) \<and> closedOf h r = Some (closedDate it)
       \<and> commitedDate it \<le> closedDate it
       \<and> leadTime it = calcLeadTime (commitedDate it) (closedDate it)
       \<and> (closedDate it - commitedDate it < 2 ^ 53 \<longrightarrow>
            leadTime it = (closedDate it - commitedDate it) div msPerDay + 1
            \<and> (closedDate it - commitedDate it < msPerDay \<longrightarrow> leadTime it = 1)
            \<and> (\<forall>oc od. leadTime it =
                   dayNumber od (closedDate it) - dayNumber oc (commitedDate it) + 1
                   + (timeOfDay od (closedDate it) - timeOfDay oc (commitedDate it) - (od - oc))
                       div msPerDay)
            \<and> (\<forall>off. leadTime it = truncatedLeadTime off (commitedDate it) (closedDate it)
                   - (if timeOfDay off (closedDate it) < timeOfDay off (commitedDate it)
                      then 1 else 0))
            \<and> (\<forall>off. dayNumber off (commitedDate it) = dayNumber off (closedDate it) \<longrightarrow>
                   leadTime it = 1))"
proof -
  from assms(1) obtain pd where pd: "processedData h (papaParse h csv) = Inr pd" "data s' = pd"
    by (auto simp: processCSV_success)
  then obtain its where its: "map (processRow h) (validRows (papaParse h csv)) = map Inr its"
    "pd = sort_key timestamp its" by (auto simp: processedData_Inr)
  from assms(2) have "processRow h r \<in> set (map Inr its)"
    using its(1) by (metis image_eqI set_map)
  then obtain it where it: "it \<in> set its" "processRow h r = Inr it" by auto
  from it(2) obtain c d where cd: "commitedOf h r = Some c" "closedOf h r = Some d" "c \<le> d"
     "commitedDate it = c" "closedDate it = d" "leadTime it = calcLeadTime c d"
    by (auto simp: processRow_Inr)
  have in_data: "it \<in> set (data s')" using it(1) its(2) pd(2) by simp
  have exact: "leadTime it = (d - c) div msPerDay + 1
      \<and> (d - c < msPerDay \<longrightarrow> leadTime it = 1)
      \<and> (\<forall>oc od. leadTime it = dayNumber od d - dayNumber oc c + 1
             + (timeOfDay od d - timeOfDay oc c - (od - oc)) div msPerDay)
      \<and> (\<forall>off. leadTime it = truncatedLeadTime off c d
             - (if timeOfDay off d < timeOfDay off c then 1 else 0))
      \<and> (\<forall>off. dayNumber off c = dayNumber off d \<longrightarrow> leadTime it = 1)"
    if range: "d - c < 2 ^ 53"
  proof -
    have lt: "leadTime it = (d - c) div msPerDay + 1"
      using cd(3) range by (simp add: cd(6) calcLeadTime_exact)
    have nonneg: "0 \<le> (d - c) div msPerDay"
      using cd(3) by (simp add: msPerDay_def pos_imp_zdiv_nonneg_iff)
    have short: "d - c < msPerDay \<longrightarrow> leadTime it = 1"
      using cd(3) by (simp add: lt)
    have zones: "\<forall>oc od. leadTime it = dayNumber od d - dayNumber oc c + 1
             + (timeOfDay od d - timeOfDay oc c - (od - oc)) div msPerDay"
    proof (intro allI)
      fix oc od
      show "leadTime it = dayNumber od d - dayNumber oc c + 1
             + (timeOfDay od d - timeOfDay oc c - (od - oc)) div msPerDay"
        unfolding lt floor_days_zones [of d c od oc] by simp
    qed
    have one: "\<forall>off. leadTime it = truncatedLeadTime off c d
             - (if timeOfDay off d < timeOfDay off c then 1 else 0)"
    proof
      fix off
      show "leadTime it = truncatedLeadTime off c d
             - (if timeOfDay off d < timeOfDay off c then 1 else 0)"
        unfolding lt truncatedLeadTime_def floor_days [of d c off] by simp
    qed
    have same: "\<forall>off. dayNumber off c = dayNumber off d \<longrightarrow> leadTime it = 1"
    proof (intro allI impI)
      fix off assume "dayNumber off c = dayNumber off d"
      with floor_days [of d c off] have "(d - c) div msPerDay \<le> 0" by simp
      with nonneg show "leadTime it = 1" using lt by simp
    qed
    from lt short zones one same show ?thesis by blast
  qed
  have "processRow h r = Inr it
       \<and> commitedOf h r = Some (commitedDate it) \<and> closedOf h r = Some (closedDate it)
       \<and> commitedDate it \<le> closedDate it
       \<and> leadTime it = calcLeadTime (commitedDate it) (closedDate it)"
    using it(2) cd by simp
  moreover have "closedDate it - commitedDate it < 2 ^ 53 \<longrightarrow>
            leadTime it = (closedDate it - commitedDate it) div msPerDay + 1
            \<and> (closedDate it - commitedDate it < msPerDay \<longrightarrow> leadTime it = 1)
            \<and> (\<forall>oc od. leadTime it =
                   dayNumber od (closedDate it) - dayNumber oc (commitedDate it) + 1
                   + (timeOfDay od (closedDate it) - timeOfDay oc (commitedDate it) - (od - oc))
                       div msPerDay)
            \<and> (\<forall>off. leadTime it = truncatedLeadTime off (commitedDate it) (closedDate it)
                   - (if timeOfDay off (closedDate it) < timeOfDay off (commitedDate it)
                      then 1 else 0))
            \<and> (\<forall>off. dayNumber off (commitedDate it) = dayNumber off (closedDate it) \<longrightarrow>
                   leadTime it = 1)"
    using exact unfolding cd(4,5) by blast
  ultimately show ?thesis using in_data by blast
qed

text \<open>
  The two rows of the two-row example: the first committed and closed on 1 January, the
  second committed on 1 January and closed on 3 January.
\<close>

theorem leadTime_untruncated_witness:
  "processCSV exHost csvTwo initialState =
     (None, initialState\<lparr>data := [exRecord ''A'' ''Bug'' 1735689600000 1735689600000 1 ''01/01/2025'',
                       exRecord ''B'' ''Bug'' 1735689600000 1735862400000 3 ''03/01/2025''],
               itemTypes := [lit ''Bug''], typeFilters := [lit ''Bug'' \<mapsto> True]\<rparr>)
   \<and> strRow ''B'' ''Bug'' ''2025-01-01'' ''2025-01-03'' \<in> set (validRows (papaParse exHost csvTwo))
   \<and> processRow exHost (strRow ''B'' ''Bug'' ''2025-01-01'' ''2025-01-03'') =
        Inr (exRecord ''B'' ''Bug'' 1735689600000 1735862400000 3 ''03/01/2025'')
   \<and> (1735862400000 - 1735689600000 :: int) < 2 ^ 53
   \<and> calcLeadTime 1735689600000 1735862400000 = 3
   \<and> (1735862400000 - 1735689600000) div msPerDay + 1 = 3
   \<and> truncatedLeadTime 0 1735689600000 1735862400000 = 3
   \<and> timeOfDay 0 1735862400000 = timeOfDay 0 1735689600000
   \<and> strRow ''A'' ''Bug'' ''2025-01-01'' ''2025-01-01'' \<in> set (validRows (papaParse exHost csvTwo))
   \<and> processRow exHost (strRow ''A'' ''Bug'' ''2025-01-01'' ''2025-01-01'') =
        Inr (exRecord ''A'' ''Bug'' 1735689600000 1735689600000 1 ''01/01/2025'')
   \<and> (1735689600000 - 1735689600000 :: int) < msPerDay
   \<and> dayNumber 0 1735689600000 = dayNumber 0 1735689600000
   \<and> calcLeadTime 1735689600000 1735689600000 = 1"
  using leadTime_untruncated [OF exFile_Two [of initialState],
      of "strRow ''B'' ''Bug'' ''2025-01-01'' ''2025-01-03''"]
    leadTime_untruncated [OF exFile_Two [of initialState],
      of "strRow ''A'' ''Bug'' ''2025-01-01'' ''2025-01-01''"]
  by (simp add: exFile_Two exParse_Two parsedTwo_def validRows_def rowValid_strRow exRow_A exRow_B
        calcLeadTime_exact msPerDay_def truncatedLeadTime_def dayNumber_def timeOfDay_def)

text \<open>
  C1 as the specification words it fails: an item committed at 23:00 and closed at 01:00 of
  the next day gets the lead time 1, where the dates truncated to days give 2.
\<close>

theorem leadTime_truncated_counterexample:
  "processCSV exHost csvNight initialState =
     (None, initialState\<lparr>data := [exRecord ''A'' ''Bug'' 1735772400000 1735779600000 1 ''02/01/2025''],
               itemTypes := [lit ''Bug''], typeFilters := [lit ''Bug'' \<mapsto> True]\<rparr>)
   \<and> leadTime (exRecord ''A'' ''Bug'' 1735772400000 1735779600000 1 ''02/01/2025'') = 1
   \<and> truncatedLeadTime 0 1735772400000 1735779600000 = 2
   \<and> leadTime (exRecord ''A'' ''Bug'' 1735772400000 1735779600000 1 ''02/01/2025'') \<noteq>
       truncatedLeadTime 0
         (commitedDate (exRecord ''A'' ''Bug'' 1735772400000 1735779600000 1 ''02/01/2025''))
         (closedDate (exRecord ''A'' ''Bug'' 1735772400000 1735779600000 1 ''02/01/2025''))"
  by (simp add: file_eval exParse_Night parsedNight_def exRow_Night exRecord_def
        uniqueTypes_def setOrder_def initialFilters_def truncatedLeadTime_def dayNumber_def
        msPerDay_def)

section \<open>Percentiles: the rank index\<close>

lemma filteredLeadTimes_unique:
  assumes "sorted xs" and "mset xs = mset (map leadTime (filteredData s))"
  shows "filteredLeadTimes s = xs"
  unfolding filteredLeadTimes_def using assms by (simp add: properties_for_sort)

lemma rank_index_in_range:
  assumes "0 < (n::nat)"
  shows "(n * 85) div 100 < n" and "(n * 95) div 100 < n"
proof -
  from assms have "n * 85 < n * 100" by simp
  then show "(n * 85) div 100 < n" by (rule less_mult_imp_div_less)
  from assms have "n * 95 < n * 100" by simp
  then show "(n * 95) div 100 < n" by (rule less_mult_imp_div_less)
qed

lemma exState10_leadTimes:
  "map leadTime (filteredData exState10) = [3, 1, 2, 10, 9, 8, 7, 6, 5, 4]"
  by (simp add: filteredData_def exState10_def exItem_def lit_def initialState_def)

text \<open>
  C2. Whatever the data and the filters, let \<open>xs\<close> be the lead times of the filtered
  items in ascending order and \<open>n\<close> their number. Then \<open>p85Value\<close> is the element of
  \<open>xs\<close> at the 0-based index \<open>floor (n * 0.85)\<close> and \<open>p95Value\<close> the one at
  \<open>floor (n * 0.95)\<close>, read directly with no interpolation (both indices are within the
  array); when \<open>n = 0\<close> both values are 0.
\<close>

theorem percentile_rank_index:
  assumes "sorted xs" and "mset xs = mset (map leadTime (filteredData s))"
  shows "p85Value s = (if length xs = 0 then Some 0 else Some (xs ! ((length xs * 85) div 100)))
       \<and> p95Value s = (if length xs = 0 then Some 0 else Some (xs ! ((length xs * 95) div 100)))
       \<and> (length xs \<noteq> 0 \<longrightarrow>
            (length xs * 85) div 100 < length xs \<and> (length xs * 95) div 100 < length xs)"
proof -
  have fl: "filteredLeadTimes s = xs" using assms by (rule filteredLeadTimes_unique)
  show ?thesis
  proof (cases "xs = []")
    case True
    then show ?thesis by (simp add: p85Value_def p95Value_def fl)
  next
    case False
    then have pos: "0 < length xs" by simp
    show ?thesis
      using False rank_index_in_range [OF pos]
      by (simp only: p85Value_def p95Value_def p85Index_def p95Index_def fl at_index_def pos
            if_True length_0_conv if_False simp_thms)
  qed
qed

text \<open>The sequence 1 to 10: index 8 holds 9 and index 9 holds 10.\<close>

theorem percentile_rank_index_witness:
  "sorted [1, 2, 3, 4, 5, 6, 7, 8, 9, 10 :: int]
   \<and> mset [1, 2, 3, 4, 5, 6, 7, 8, 9, 10] = mset (map leadTime (filteredData exState10))
   \<and> (10 * 85) div 100 = (8::nat) \<and> (10 * 95) div 100 = (9::nat)
   \<and> p85Value exState10 = Some 9 \<and> p95Value exState10 = Some 10"
  using percentile_rank_index [of "[1, 2, 3, 4, 5, 6, 7, 8, 9, 10]" exState10]
  by (simp add: exState10_leadTimes)

section \<open>Ingestion replaces the state at once or leaves it alone\<close>

text \<open>
  C3, as the code has it. Ingestion is atomic. When the file is accepted, \<open>processCSV\<close>
  replaces the data set, the list of item types and the type filters together; when it is
  rejected, \<open>processCSV\<close> throws with the state exactly as it was, and after
  \<open>handleFileUpload\<close> has caught the error the data set, the item types and the type
  filters are still those of before. In particular, in a file with the four required
  columns, a surviving row closed before it was committed makes the ingestion throw a date
  error and leave the state alone. The error thrown is that of the first surviving row, in
  the order of the input, that fails a date check: when no earlier row throws, it is this
  row's inconsistent-date error, whose message gives the row's id and the texts of its
  closed date and of its commitment date.
\<close>

theorem ingestion_atomic:
  "(case processedData h (papaParse h csv) of
      Inr pd \<Rightarrow>
        processCSV h csv s =
          (None, s\<lparr>data := pd, itemTypes := uniqueTypes pd,
                   typeFilters := initialFilters (uniqueTypes pd)\<rparr>)
    | Inl e \<Rightarrow>
        processCSV h csv s = (Some e, s)
        \<and> data (handleFileUpload h (Some \<lparr>file_name = n, file_text = Inr csv\<rparr>) s) = data s
        \<and> itemTypes (handleFileUpload h (Some \<lparr>file_name = n, file_text = Inr csv\<rparr>) s) = itemTypes s
        \<and> typeFilters (handleFileUpload h (Some \<lparr>file_name = n, file_text = Inr csv\<rparr>) s) = typeFilters s)
   \<and> (\<forall>pre r post c d.
         missingColumns (papaParse h csv) = [] \<and> validRows (papaParse h csv) = pre @ r # post
         \<and> commitedOf h r = Some c \<and> closedOf h r = Some d \<and> d < c \<longrightarrow>
           (\<exists>e pre0 r0 post0.
                processCSV h csv s = (Some e, s)
                \<and> validRows (papaParse h csv) = pre0 @ r0 # post0
                \<and> (\<forall>x \<in> set pre0. \<exists>it. processRow h x = Inr it)
                \<and> processRow h r0 = Inl e
                \<and> (e = Error (invalidDateMessage (idOf h r0) (commitedText h r0) (closedText h r0))
                     \<or> e = Error (inconsistentDateMessage (idOf h r0) (closedText h r0)
                                     (commitedText h r0))))
           \<and> ((\<forall>x \<in> set pre. \<exists>it. processRow h x = Inr it) \<longrightarrow>
                processCSV h csv s =
                  (Some (Error (inconsistentDateMessage (idOf h r) (closedText h r) (commitedText h r))), s)))
   \<and> inconsistentDateMessage ident dt ct =
       [10060] @ lit '' Data inconsistente encontrada!'' @ [10, 10] @
       lit ''Linha com ID: '' @ ident @ [10] @
       lit ''Closed Date ('' @ dt @ lit '') '' @ [233] @
         lit '' anterior ao Commited Date ('' @ ct @ lit '')'' @ [10, 10] @
       lit ''A data de conclus'' @ [227] @ lit ''o deve ser igual ou posterior '' @ [224] @
         lit '' data de in'' @ [237] @ lit ''cio.''"
proof (intro conjI allI impI)
  show "inconsistentDateMessage ident dt ct =
       [10060] @ lit '' Data inconsistente encontrada!'' @ [10, 10] @
       lit ''Linha com ID: '' @ ident @ [10] @
       lit ''Closed Date ('' @ dt @ lit '') '' @ [233] @
         lit '' anterior ao Commited Date ('' @ ct @ lit '')'' @ [10, 10] @
       lit ''A data de conclus'' @ [227] @ lit ''o deve ser igual ou posterior '' @ [224] @
         lit '' data de in'' @ [237] @ lit ''cio.''"
    by (simp add: inconsistentDateMessage_def)
next
  show "case processedData h (papaParse h csv) of
      Inr pd \<Rightarrow>
        processCSV h csv s =
          (None, s\<lparr>data := pd, itemTypes := uniqueTypes pd,
                   typeFilters := initialFilters (uniqueTypes pd)\<rparr>)
    | Inl e \<Rightarrow>
        processCSV h csv s = (Some e, s)
        \<and> data (handleFileUpload h (Some \<lparr>file_name = n, file_text = Inr csv\<rparr>) s) = data s
        \<and> itemTypes (handleFileUpload h (Some \<lparr>file_name = n, file_text = Inr csv\<rparr>) s) = itemTypes s
        \<and> typeFilters (handleFileUpload h (Some \<lparr>file_name = n, file_text = Inr csv\<rparr>) s) = typeFilters s"
    by (simp add: processCSV_def handleFileUpload_failure split: sum.split)
next
  fix pre r post c d
  assume a: "missingColumns (papaParse h csv) = [] \<and> validRows (papaParse h csv) = pre @ r # post
         \<and> commitedOf h r = Some c \<and> closedOf h r = Some d \<and> d < c"
  let ?p = "papaParse h csv"
  from a have bad: "processRow h r =
      Inl (Error (inconsistentDateMessage (idOf h r) (closedText h r) (commitedText h r)))"
    by (simp add: processRow_inconsistent)
  from a have ne: "validRows ?p \<noteq> []" and r: "r \<in> set (validRows ?p)" by simp_all
  from mapRows_first_date_failure [OF r bad] obtain e pre0 r0 post0 where
    e: "mapRows h (validRows ?p) = Inl e" and first: "validRows ?p = pre0 @ r0 # post0"
      "\<forall>x \<in> set pre0. \<exists>it. processRow h x = Inr it" "processRow h r0 = Inl e"
      "e = Error (invalidDateMessage (idOf h r0) (commitedText h r0) (closedText h r0))
       \<or> e = Error (inconsistentDateMessage (idOf h r0) (closedText h r0) (commitedText h r0))"
    by blast
  from a ne e have "processedData h ?p = Inl e" by (simp add: processedData_rows)
  then have "processCSV h csv s = (Some e, s)" by (simp add: processCSV_failure)
  with first show "\<exists>e pre0 r0 post0.
                processCSV h csv s = (Some e, s)
                \<and> validRows ?p = pre0 @ r0 # post0
                \<and> (\<forall>x \<in> set pre0. \<exists>it. processRow h x = Inr it)
                \<and> processRow h r0 = Inl e
                \<and> (e = Error (invalidDateMessage (idOf h r0) (commitedText h r0) (closedText h r0))
                     \<or> e = Error (inconsistentDateMessage (idOf h r0) (closedText h r0)
                                     (commitedText h r0)))" by blast
  {
    assume ok: "\<forall>x \<in> set pre. \<exists>it. processRow h x = Inr it"
    from a have "validRows ?p = pre @ r # post" by simp
    from mapRows_first_failure [OF this ok bad]
    have "processedData h ?p = Inl (Error (inconsistentDateMessage (idOf h r) (closedText h r) (commitedText h r)))"
      using a ne by (simp add: processedData_rows)
    then show "processCSV h csv s =
                  (Some (Error (inconsistentDateMessage (idOf h r) (closedText h r) (commitedText h r))), s)"
      by (simp add: processCSV_failure)
  }
qed

text \<open>
  After a first file has been loaded, a file whose second row is closed two days before its
  commitment is rejected and the loaded data stay; a good file replaces them.
\<close>

theorem ingestion_atomic_witness:
  "missingColumns (papaParse exHost csvReversed) = []
   \<and> validRows (papaParse exHost csvReversed) =
       [strRow ''A'' ''Bug'' ''2025-01-01'' ''2025-01-01''] @
        strRow ''Z'' ''Bug'' ''2025-01-03'' ''2025-01-01'' # []
   \<and> processRow exHost (strRow ''A'' ''Bug'' ''2025-01-01'' ''2025-01-01'') =
       Inr (exRecord ''A'' ''Bug'' 1735689600000 1735689600000 1 ''01/01/2025'')
   \<and> commitedOf exHost (strRow ''Z'' ''Bug'' ''2025-01-03'' ''2025-01-01'') = Some 1735862400000
   \<and> closedOf exHost (strRow ''Z'' ''Bug'' ''2025-01-03'' ''2025-01-01'') = Some 1735689600000
   \<and> (1735689600000 :: int) < 1735862400000
   \<and> processCSV exHost csvReversed exLoaded =
       (Some (Error (inconsistentDateMessage (lit ''Z'') (lit ''2025-01-01'') (lit ''2025-01-03''))),
        exLoaded)
   \<and> data (handleFileUpload exHost
        (Some \<lparr>file_name = lit ''novo.csv'', file_text = Inr csvReversed\<rparr>) exLoaded) = data exLoaded
   \<and> typeFilters (handleFileUpload exHost
        (Some \<lparr>file_name = lit ''novo.csv'', file_text = Inr csvReversed\<rparr>) exLoaded) = typeFilters exLoaded
   \<and> data exLoaded = [exRecord ''B'' ''Task'' 1735689600000 1735689600000 1 ''01/01/2025'',
                    exRecord ''A'' ''Bug'' 1735689600000 1735862400000 3 ''03/01/2025'',
                    exRecord ''C'' ''Bug'' 1735689600000 1735862400000 3 ''03/01/2025'']
   \<and> processCSV exHost csvTwo exLoaded =
       (None, exLoaded\<lparr>data := [exRecord ''A'' ''Bug'' 1735689600000 1735689600000 1 ''01/01/2025'',
                       exRecord ''B'' ''Bug'' 1735689600000 1735862400000 3 ''03/01/2025''],
               itemTypes := [lit ''Bug''], typeFilters := [lit ''Bug'' \<mapsto> True]\<rparr>)
   \<and> inconsistentDateMessage (lit ''Z'') (lit ''2025-01-01'') (lit ''2025-01-03'') =
       [10060] @ lit '' Data inconsistente encontrada!'' @ [10, 10] @
       lit ''Linha com ID: Z'' @ [10] @
       lit ''Closed Date (2025-01-01) '' @ [233] @
         lit '' anterior ao Commited Date (2025-01-03)'' @ [10, 10] @
       lit ''A data de conclus'' @ [227] @ lit ''o deve ser igual ou posterior '' @ [224] @
         lit '' data de in'' @ [237] @ lit ''cio.''"
proof -
  let ?A = "strRow ''A'' ''Bug'' ''2025-01-01'' ''2025-01-01''"
  let ?Z = "strRow ''Z'' ''Bug'' ''2025-01-03'' ''2025-01-01''"
  have failed: "processedData exHost (papaParse exHost csvReversed) =
      Inl (Error (inconsistentDateMessage (lit ''Z'') (lit ''2025-01-01'') (lit ''2025-01-03'')))"
    by (simp add: exParse_Reversed exFile_Reversed)
  have hyps: "missingColumns (papaParse exHost csvReversed) = []
      \<and> validRows (papaParse exHost csvReversed) = [?A] @ ?Z # []
      \<and> commitedOf exHost ?Z = Some 1735862400000 \<and> closedOf exHost ?Z = Some 1735689600000
      \<and> (1735689600000 :: int) < 1735862400000"
    by (simp add: exParse_Reversed missing_fullHeader parsedReversed_def validRows_def
          rowValid_strRow exDates_Z)
  have before: "\<forall>x \<in> set [?A]. \<exists>it. processRow exHost x = Inr it"
    by (simp add: exRow_A)
  have texts: "idOf exHost ?Z = lit ''Z''" "closedText exHost ?Z = lit ''2025-01-01''"
    "commitedText exHost ?Z = lit ''2025-01-03''"
    by (simp_all add: strRow_def cell_mkRow trim_def isWhiteSpace_def lit_def)
  note atomic = ingestion_atomic [of exHost csvReversed exLoaded "lit ''novo.csv''"]
  from atomic [THEN conjunct1] have unchanged:
    "data (handleFileUpload exHost
        (Some \<lparr>file_name = lit ''novo.csv'', file_text = Inr csvReversed\<rparr>) exLoaded) = data exLoaded
     \<and> typeFilters (handleFileUpload exHost
        (Some \<lparr>file_name = lit ''novo.csv'', file_text = Inr csvReversed\<rparr>) exLoaded) = typeFilters exLoaded"
    unfolding failed by simp
  from atomic [THEN conjunct2, THEN conjunct1, THEN spec, THEN spec, THEN spec, THEN spec,
      THEN spec, THEN mp, OF hyps, THEN conjunct2, THEN mp, OF before]
  have thrown: "processCSV exHost csvReversed exLoaded =
       (Some (Error (inconsistentDateMessage (lit ''Z'') (lit ''2025-01-01'') (lit ''2025-01-03''))),
        exLoaded)"
    unfolding texts .
  have replaced: "processCSV exHost csvTwo exLoaded =
       (None, exLoaded\<lparr>data := [exRecord ''A'' ''Bug'' 1735689600000 1735689600000 1 ''01/01/2025'',
                       exRecord ''B'' ''Bug'' 1735689600000 1735862400000 3 ''03/01/2025''],
               itemTypes := [lit ''Bug''], typeFilters := [lit ''Bug'' \<mapsto> True]\<rparr>)"
    by (rule exFile_Two)
  from ingestion_atomic [where ident = "lit ''Z''" and dt = "lit ''2025-01-01''"
      and ct = "lit ''2025-01-03''", THEN conjunct2, THEN conjunct2]
  have spelled: "inconsistentDateMessage (lit ''Z'') (lit ''2025-01-01'') (lit ''2025-01-03'') =
       [10060] @ lit '' Data inconsistente encontrada!'' @ [10, 10] @
       lit ''Linha com ID: Z'' @ [10] @
       lit ''Closed Date (2025-01-01) '' @ [233] @
         lit '' anterior ao Commited Date (2025-01-03)'' @ [10, 10] @
       lit ''A data de conclus'' @ [227] @ lit ''o deve ser igual ou posterior '' @ [224] @
         lit '' data de in'' @ [237] @ lit ''cio.''"
    by (simp add: lit_def)
  have "missingColumns (papaParse exHost csvReversed) = []
   \<and> validRows (papaParse exHost csvReversed) = [?A] @ ?Z # []
   \<and> processRow exHost ?A =
       Inr (exRecord ''A'' ''Bug'' 1735689600000 1735689600000 1 ''01/01/2025'')
   \<and> commitedOf exHost ?Z = Some 1735862400000
   \<and> closedOf exHost ?Z = Some 1735689600000
   \<and> (1735689600000 :: int) < 1735862400000"
    using hyps by (simp add: exRow_A)
  with unchanged thrown replaced spelled exLoaded_data show ?thesis by (intro conjI) simp_all
qed

text \<open>
  C3 as the specification words it fails: the error does not always name the row that is
  closed before it is committed. When a row with an unparseable date comes first, the
  ingestion throws that row's invalid-date error, which names the other row.
\<close>

theorem ingestion_first_error_counterexample:
  "missingColumns (papaParse exHost csvBadFirst) = []
   \<and> validRows (papaParse exHost csvBadFirst) =
       [strRow ''B'' ''Bug'' ''amanha'' ''2025-01-03'',
        strRow ''Z'' ''Bug'' ''2025-01-03'' ''2025-01-01'']
   \<and> commitedOf exHost (strRow ''Z'' ''Bug'' ''2025-01-03'' ''2025-01-01'') = Some 1735862400000
   \<and> closedOf exHost (strRow ''Z'' ''Bug'' ''2025-01-03'' ''2025-01-01'') = Some 1735689600000
   \<and> (1735689600000 :: int) < 1735862400000
   \<and> processCSV exHost csvBadFirst exLoaded =
       (Some (Error (invalidDateMessage (lit ''B'') (lit ''amanha'') (lit ''2025-01-03''))), exLoaded)
   \<and> invalidDateMessage (lit ''B'') (lit ''amanha'') (lit ''2025-01-03'') =
       [10060] @ lit '' Data inv'' @ [225] @ lit ''lida encontrada!'' @ [10, 10] @
       lit ''Linha com ID: B'' @ [10] @
       lit ''Commited Date: amanha'' @ [10] @
       lit ''Closed Date: 2025-01-03'' @ [10, 10] @
       lit ''Use o formato: YYYY-MM-DD (ex: 2025-01-15)''
   \<and> invalidDateMessage (lit ''B'') (lit ''amanha'') (lit ''2025-01-03'') \<noteq>
       inconsistentDateMessage (lit ''Z'') (lit ''2025-01-01'') (lit ''2025-01-03'')"
proof -
  have "invalidDateMessage (lit ''B'') (lit ''amanha'') (lit ''2025-01-03'') =
       [10060] @ lit '' Data inv'' @ [225] @ lit ''lida encontrada!'' @ [10, 10] @
       lit ''Linha com ID: B'' @ [10] @
       lit ''Commited Date: amanha'' @ [10] @
       lit ''Closed Date: 2025-01-03'' @ [10, 10] @
       lit ''Use o formato: YYYY-MM-DD (ex: 2025-01-15)''"
    by (simp add: invalidDateMessage_def expectedFormat_def lit_def)
  moreover have "invalidDateMessage (lit ''B'') (lit ''amanha'') (lit ''2025-01-03'') \<noteq>
       inconsistentDateMessage (lit ''Z'') (lit ''2025-01-01'') (lit ''2025-01-03'')"
    by (simp add: invalidDateMessage_def inconsistentDateMessage_def lit_def)
  moreover have "missingColumns (papaParse exHost csvBadFirst) = []"
    by (simp add: exParse_BadFirst parsedBadFirst_def missing_fullHeader)
  moreover have "(1735689600000 :: int) < 1735862400000" by simp
  ultimately show ?thesis
    using exValid_BadFirst exDates_Z exThrow_BadFirst [of exLoaded] by (intro conjI)
qed


section \<open>A header without a required column\<close>

text \<open>
  C4. When the header lacks one or more of the four required columns, ingestion fails
  with the structure error and the state stays as it was. The message lists exactly the
  missing columns (each required column that the header does not have, once, and no column
  that it has), then the expected header, which is the four required names, and then the
  header found, each joined with a comma and a space, verbatim.
\<close>

theorem missing_columns_schema_error:
  assumes "\<exists>col \<in> set requiredColumns. col \<notin> set (headers (papaParse h csv))"
  shows "processCSV h csv s =
           (Some (Error (schemaMessage (missingColumns (papaParse h csv)) (headers (papaParse h csv)))), s)
       \<and> set (missingColumns (papaParse h csv)) = set requiredColumns - set (headers (papaParse h csv))
       \<and> distinct (missingColumns (papaParse h csv))
       \<and> schemaMessage (missingColumns (papaParse h csv)) (headers (papaParse h csv)) =
           [10060] @ lit '' Estrutura do CSV inv'' @ [225] @ lit ''lida!'' @ [10, 10] @
           lit ''Colunas obrigat'' @ [243] @ lit ''rias faltando:'' @ [10] @
             join (lit '', '') (missingColumns (papaParse h csv)) @ [10, 10] @
           lit ''Estrutura esperada:'' @ [10] @ join (lit '', '') requiredColumns @ [10, 10] @
           lit ''Estrutura encontrada:'' @ [10] @ join (lit '', '') (headers (papaParse h csv))"
proof -
  from assms have "missingColumns (papaParse h csv) \<noteq> []"
    by (auto simp: missingColumns_empty)
  then have "processCSV h csv s =
           (Some (Error (schemaMessage (missingColumns (papaParse h csv)) (headers (papaParse h csv)))), s)"
    by (simp add: processCSV_failure processedData_schema)
  moreover have "distinct (missingColumns (papaParse h csv))"
    using requiredColumns_distinct by (simp add: missingColumns_def)
  ultimately show ?thesis
    by (simp add: missingColumns_set schemaMessage_def expectedStructure_join)
qed

text \<open>A header that has neither the item type nor the closed date.\<close>

theorem missing_columns_schema_error_witness:
  "col_Tipo \<in> set requiredColumns \<and> col_Tipo \<notin> set (headers (papaParse exHost csvNoTipo))
   \<and> headers (papaParse exHost csvNoTipo) = [lit ''ID'', lit ''Tipo'', lit ''Commited Date'']
   \<and> missingColumns (papaParse exHost csvNoTipo) = [lit ''Tipo de Item'', lit ''Closed Date'']
   \<and> processCSV exHost csvNoTipo exLoaded =
       (Some (Error (schemaMessage [lit ''Tipo de Item'', lit ''Closed Date'']
                       [lit ''ID'', lit ''Tipo'', lit ''Commited Date''])), exLoaded)
   \<and> join (lit '', '') [lit ''Tipo de Item'', lit ''Closed Date''] = lit ''Tipo de Item, Closed Date''
   \<and> join (lit '', '') [lit ''ID'', lit ''Tipo'', lit ''Commited Date''] = lit ''ID, Tipo, Commited Date''"
proof -
  have hyp: "\<exists>col \<in> set requiredColumns. col \<notin> set (headers (papaParse exHost csvNoTipo))"
    by (simp add: exHeaders_NoTipo requiredColumns_def col_ID_def col_Tipo_def
          col_Commited_def col_Closed_def lit_def)
  have tipo: "col_Tipo \<in> set requiredColumns \<and> col_Tipo \<notin> set (headers (papaParse exHost csvNoTipo))"
    by (simp add: exHeaders_NoTipo requiredColumns_def col_Tipo_def lit_def)
  from missing_columns_schema_error [OF hyp, of exLoaded] tipo show ?thesis
    by (simp add: exHeaders_NoTipo exMissing_NoTipo lit_def)
qed

section \<open>The completeness filter\<close>




section \<open>A date that does not parse\<close>




section \<open>The order of the data set\<close>

text \<open>
  C7. The data set of a successful ingestion is sorted ascending by the closing date; it
  holds the items of the surviving rows, and items with the same closing date keep the
  order of their rows in the input (the sort is stable). Ingesting the same text again,
  from whatever state, produces the same data set.
\<close>

theorem dataset_sorted_stable:
  assumes "processCSV h csv s = (None, s')"
  shows "sorted (map closedDate (data s'))
       \<and> (\<exists>its. map (processRow h) (validRows (papaParse h csv)) = map Inr its
              \<and> mset (data s') = mset its
              \<and> (\<forall>k. filter (\<lambda>it. closedDate it = k) (data s') =
                      filter (\<lambda>it. closedDate it = k) its))
       \<and> (\<forall>t. \<exists>t'. processCSV h csv t = (None, t') \<and> data t' = data s')"
proof -
  let ?p = "papaParse h csv"
  from assms obtain pd where pd: "processedData h ?p = Inr pd" "data s' = pd"
    by (auto simp: processCSV_success)
  then obtain its where its: "map (processRow h) (validRows ?p) = map Inr its"
    "pd = sort_key timestamp its" by (auto simp: processedData_Inr)
  have ts: "timestamp it = closedDate it" if "it \<in> set its" for it
  proof -
    from map_Inr_member [OF its(1) that] obtain r where "processRow h r = Inr it" by blast
    then show ?thesis by (rule processRow_item(2))
  qed
  have "sorted (map timestamp pd)" unfolding its(2) by (rule sorted_sort_key)
  moreover have "map timestamp pd = map closedDate pd"
    using ts by (simp add: its(2))
  ultimately have sorted: "sorted (map closedDate (data s'))" by (simp add: pd(2))
  have stable: "filter (\<lambda>it. closedDate it = k) (data s') = filter (\<lambda>it. closedDate it = k) its"
    for k
  proof -
    have "filter (\<lambda>it. closedDate it = k) pd = filter (\<lambda>it. timestamp it = k) pd"
      using ts by (intro filter_cong) (simp_all add: its(2))
    also have "\<dots> = filter (\<lambda>it. timestamp it = k) its"
      unfolding its(2) by (rule sort_key_stable)
    also have "\<dots> = filter (\<lambda>it. closedDate it = k) its"
      using ts by (intro filter_cong) simp_all
    finally show ?thesis by (simp add: pd(2))
  qed
  have perm: "mset (data s') = mset its" by (simp add: pd(2) its(2))
  have again: "\<exists>t'. processCSV h csv t = (None, t') \<and> data t' = data s'" for t
    using pd by (simp add: processCSV_def)
  from sorted its(1) perm stable again show ?thesis by blast
qed

text \<open>Rows A and C close on the same day, row B before them: B comes first, then A, then C.\<close>

theorem dataset_sorted_stable_witness:
  "processCSV exHost csvTies initialState = (None, exLoaded)
   \<and> map (processRow exHost) (validRows (papaParse exHost csvTies)) =
       map Inr [exRecord ''A'' ''Bug'' 1735689600000 1735862400000 3 ''03/01/2025'',
                exRecord ''B'' ''Task'' 1735689600000 1735689600000 1 ''01/01/2025'',
                exRecord ''C'' ''Bug'' 1735689600000 1735862400000 3 ''03/01/2025'']
   \<and> data exLoaded =
       [exRecord ''B'' ''Task'' 1735689600000 1735689600000 1 ''01/01/2025'',
        exRecord ''A'' ''Bug'' 1735689600000 1735862400000 3 ''03/01/2025'',
        exRecord ''C'' ''Bug'' 1735689600000 1735862400000 3 ''03/01/2025'']
   \<and> map closedDate (data exLoaded) = [1735689600000, 1735862400000, 1735862400000]
   \<and> sorted (map closedDate (data exLoaded))
   \<and> filter (\<lambda>it. closedDate it = 1735862400000) (data exLoaded) =
       [exRecord ''A'' ''Bug'' 1735689600000 1735862400000 3 ''03/01/2025'',
        exRecord ''C'' ''Bug'' 1735689600000 1735862400000 3 ''03/01/2025'']
   \<and> data (snd (processCSV exHost csvTies exLoaded)) = data exLoaded"
proof -
  from dataset_sorted_stable [OF exLoaded_result]
  have "sorted (map closedDate (data exLoaded))" by (rule conjunct1)
  moreover have "data (snd (processCSV exHost csvTies exLoaded)) = data exLoaded"
    by (simp add: exFile_Ties exLoaded_data)
  moreover have "map closedDate (data exLoaded) = [1735689600000, 1735862400000, 1735862400000]"
    and "filter (\<lambda>it. closedDate it = 1735862400000) (data exLoaded) =
       [exRecord ''A'' ''Bug'' 1735689600000 1735862400000 3 ''03/01/2025'',
        exRecord ''C'' ''Bug'' 1735689600000 1735862400000 3 ''03/01/2025'']"
    by (simp_all add: exLoaded_data exRecord_def)
  ultimately show ?thesis
    using exLoaded_result exRows_Ties exLoaded_data by (intro conjI)
qed

section \<open>The invariant of the records\<close>

text \<open>
  C8. In every state the component can reach, and so in the data set of every successful
  ingestion, each record is closed no earlier than it was committed and has a lead time of
  at least 1, which is still the one derived from its two dates. No handler changes a
  record: a step leaves the data set as it is, empties it, or replaces it by the records a
  file has just produced, and toggling a type filter leaves it as it is.
\<close>

theorem records_invariant:
  "(\<forall>it \<in> set (data (run h as)).
       commitedDate it \<le> closedDate it \<and> 1 \<le> leadTime it
       \<and> leadTime it = calcLeadTime (commitedDate it) (closedDate it))
   \<and> (\<forall>it \<in> set (data (snd (processCSV h csv s))).
         fst (processCSV h csv s) = None \<longrightarrow>
           commitedDate it \<le> closedDate it \<and> 1 \<le> leadTime it)
   \<and> (data (step h s a) = data s \<or> data (step h s a) = []
        \<or> (\<exists>csv'. processedData h (papaParse h csv') = Inr (data (step h s a))))
   \<and> data (toggleTypeFilter ty s) = data s"
proof (intro conjI ballI impI)
  fix it
  assume "it \<in> set (data (snd (processCSV h csv s)))" and "fst (processCSV h csv s) = None"
  then obtain pd where "processedData h (papaParse h csv) = Inr pd" "it \<in> set pd"
    by (auto simp: processCSV_def split: sum.splits)
  from processedData_item_ok [OF this]
  show "commitedDate it \<le> closedDate it" and "1 \<le> leadTime it" by simp_all
next
  show "data (step h s a) = data s \<or> data (step h s a) = []
        \<or> (\<exists>csv'. processedData h (papaParse h csv') = Inr (data (step h s a)))"
    by (rule step_data)
next
  show "data (toggleTypeFilter ty s) = data s" by (simp add: toggleTypeFilter_def)
qed (use run_items_ok in blast)+

text \<open>A file loaded at start, a filter toggled, then a file that is rejected.\<close>

theorem records_invariant_witness:
  "data (run exHost [AutoLoad (Inr csvTwo), Toggle (lit ''Bug''),
           Upload (Some \<lparr>file_name = lit ''novo.csv'', file_text = Inr csvReversed\<rparr>)]) =
     [exRecord ''A'' ''Bug'' 1735689600000 1735689600000 1 ''01/01/2025'',
      exRecord ''B'' ''Bug'' 1735689600000 1735862400000 3 ''03/01/2025'']
   \<and> commitedDate (exRecord ''B'' ''Bug'' 1735689600000 1735862400000 3 ''03/01/2025'')
       \<le> closedDate (exRecord ''B'' ''Bug'' 1735689600000 1735862400000 3 ''03/01/2025'')
   \<and> 1 \<le> leadTime (exRecord ''B'' ''Bug'' 1735689600000 1735862400000 3 ''03/01/2025'')
   \<and> leadTime (exRecord ''B'' ''Bug'' 1735689600000 1735862400000 3 ''03/01/2025'') =
       calcLeadTime 1735689600000 1735862400000
   \<and> fst (processCSV exHost csvTwo initialState) = None
   \<and> data (snd (processCSV exHost csvTwo initialState)) =
       [exRecord ''A'' ''Bug'' 1735689600000 1735689600000 1 ''01/01/2025'',
        exRecord ''B'' ''Bug'' 1735689600000 1735862400000 3 ''03/01/2025'']"
proof -
  let ?acts = "[AutoLoad (Inr csvTwo), Toggle (lit ''Bug''),
           Upload (Some \<lparr>file_name = lit ''novo.csv'', file_text = Inr csvReversed\<rparr>)]"
  let ?B = "exRecord ''B'' ''Bug'' 1735689600000 1735862400000 3 ''03/01/2025''"
  have "?B \<in> set (data (run exHost ?acts))" by (simp add: exRun_data)
  with records_invariant [of exHost ?acts, THEN conjunct1]
  have "commitedDate ?B \<le> closedDate ?B \<and> 1 \<le> leadTime ?B
       \<and> leadTime ?B = calcLeadTime (commitedDate ?B) (closedDate ?B)" by (rule bspec)
  then show ?thesis by (simp add: exRun_data exFile_Two) (simp add: exRecord_def)
qed

section \<open>No row survives the filter\<close>

text \<open>
  C9. When the header has the four required columns and no row passes the completeness
  filter, ingestion fails with the no-valid-data error, whose message differs from every
  message of the structure error: the two can be told apart.
\<close>

theorem no_valid_rows_error:
  assumes "set requiredColumns \<subseteq> set (headers (papaParse h csv))"
    and "validRows (papaParse h csv) = []"
  shows "processCSV h csv s = (Some (Error noValidDataMessage), s)
       \<and> (\<forall>missing hs. noValidDataMessage \<noteq> schemaMessage missing hs)
       \<and> (\<forall>missing hs. Error noValidDataMessage \<noteq> Error (schemaMessage missing hs))"
  using assms
  by (simp add: processCSV_failure processedData_noValid missingColumns_empty noValid_not_schema)

text \<open>A file whose only row has no item type.\<close>

theorem no_valid_rows_error_witness:
  "set requiredColumns \<subseteq> set (headers (papaParse exHost csvBlank))
   \<and> validRows (papaParse exHost csvBlank) = []
   \<and> processCSV exHost csvBlank exLoaded = (Some (Error noValidDataMessage), exLoaded)
   \<and> noValidDataMessage \<noteq> schemaMessage [lit ''Tipo de Item''] [lit ''ID'']"
proof -
  have h1: "set requiredColumns \<subseteq> set (headers (papaParse exHost csvBlank))"
    by (simp add: exParse_Blank parsedBlank_def headers_def fullHeader_def requiredColumns_def
          col_ID_def col_Tipo_def col_Commited_def col_Closed_def)
  have h2: "validRows (papaParse exHost csvBlank) = []"
    by (simp add: exParse_Blank parsedBlank_def validRows_def rowValid_mkRow)
  from no_valid_rows_error [OF h1 h2, of exLoaded] h1 h2 show ?thesis by simp
qed

section \<open>Truthiness, not text\<close>

text \<open>
  C10. A row survives the completeness filter exactly when its four required cells, as
  dynamic typing left them, are truthy. So a row is dropped when a required cell is the
  number 0 or \<open>false\<close> (what the texts 0 and false become), as it is when the cell is
  empty, while a row whose required cells are non-empty strings survives, also when a
  string is nothing but white space and trims to the empty string.
\<close>

theorem filter_tests_truthiness:
  "(r \<in> set (validRows p) \<longleftrightarrow>
      r \<in> set (parsed_data p) \<and> (\<forall>k \<in> set requiredColumns. truthy (cell r k)))
   \<and> (k \<in> set requiredColumns
        \<and> (cell r k = JNum 0 \<or> cell r k = JBool False \<or> cell r k = JNull
             \<or> cell r k = JUndefined \<or> cell r k = JStr []) \<longrightarrow>
        r \<notin> set (validRows p))
   \<and> (r \<in> set (parsed_data p) \<and> (\<forall>k \<in> set requiredColumns. \<exists>t. cell r k = JStr t \<and> t \<noteq> []) \<longrightarrow>
        r \<in> set (validRows p))
   \<and> (t \<noteq> [] \<and> (\<forall>c \<in> set t. isWhiteSpace c) \<longrightarrow> truthy (JStr t) \<and> trim t = [])"
proof (intro conjI impI)
  show iff: "r \<in> set (validRows p) \<longleftrightarrow>
      r \<in> set (parsed_data p) \<and> (\<forall>k \<in> set requiredColumns. truthy (cell r k))"
    by (simp add: validRows_def rowValid_required)
  {
    assume a: "k \<in> set requiredColumns
        \<and> (cell r k = JNum 0 \<or> cell r k = JBool False \<or> cell r k = JNull
             \<or> cell r k = JUndefined \<or> cell r k = JStr [])"
    then have "\<not> truthy (cell r k)" by auto
    with a show "r \<notin> set (validRows p)" unfolding iff by blast
  }
  {
    assume a: "r \<in> set (parsed_data p) \<and> (\<forall>k \<in> set requiredColumns. \<exists>t. cell r k = JStr t \<and> t \<noteq> [])"
    then have "\<forall>k \<in> set requiredColumns. truthy (cell r k)" by fastforce
    with a show "r \<in> set (validRows p)" unfolding iff by blast
  }
  {
    assume a: "t \<noteq> [] \<and> (\<forall>c \<in> set t. isWhiteSpace c)"
    then show "truthy (JStr t)" by simp
    from a show "trim t = []" by (simp add: trim_empty_iff)
  }
qed

text \<open>
  A file with the identifiers 0, false and three spaces: the first two rows are dropped,
  the third one makes a record.
\<close>

theorem filter_tests_truthiness_witness:
  "col_ID \<in> set requiredColumns
   \<and> cell (mkRow (JNum 0) (JStr (lit ''Bug'')) (JStr (lit ''2025-01-01''))
        (JStr (lit ''2025-01-01''))) col_ID = JNum 0
   \<and> mkRow (JNum 0) (JStr (lit ''Bug'')) (JStr (lit ''2025-01-01'')) (JStr (lit ''2025-01-01''))
       \<notin> set (validRows (papaParse exHost csvZero))
   \<and> cell (mkRow (JBool False) (JStr (lit ''Bug'')) (JStr (lit ''2025-01-01''))
        (JStr (lit ''2025-01-01''))) col_ID = JBool False
   \<and> mkRow (JBool False) (JStr (lit ''Bug'')) (JStr (lit ''2025-01-01'')) (JStr (lit ''2025-01-01''))
       \<notin> set (validRows (papaParse exHost csvZero))
   \<and> lit ''   '' \<noteq> [] \<and> truthy (JStr (lit ''   '')) \<and> trim (lit ''   '') = []
   \<and> validRows (papaParse exHost csvZero) =
       [strRow ''   '' ''Bug'' ''2025-01-01'' ''2025-01-01'',
        strRow ''B'' ''Bug'' ''2025-01-01'' ''2025-01-03'']
   \<and> processCSV exHost csvZero initialState =
       (None, initialState\<lparr>data := [exRecord [] ''Bug'' 1735689600000 1735689600000 1 ''01/01/2025'',
                       exRecord ''B'' ''Bug'' 1735689600000 1735862400000 3 ''03/01/2025''],
               itemTypes := [lit ''Bug''], typeFilters := [lit ''Bug'' \<mapsto> True]\<rparr>)"
proof -
  let ?zero = "mkRow (JNum 0) (JStr (lit ''Bug'')) (JStr (lit ''2025-01-01'')) (JStr (lit ''2025-01-01''))"
  let ?false = "mkRow (JBool False) (JStr (lit ''Bug'')) (JStr (lit ''2025-01-01'')) (JStr (lit ''2025-01-01''))"
  have req: "col_ID \<in> set requiredColumns" by (simp add: requiredColumns_def)
  have z: "cell ?zero col_ID = JNum 0" and f: "cell ?false col_ID = JBool False"
    by (simp_all add: cell_mkRow)
  have "?zero \<notin> set (validRows (papaParse exHost csvZero))"
    using filter_tests_truthiness [of ?zero "papaParse exHost csvZero" col_ID,
        THEN conjunct2, THEN conjunct1] req z by blast
  moreover have "?false \<notin> set (validRows (papaParse exHost csvZero))"
    using filter_tests_truthiness [of ?false "papaParse exHost csvZero" col_ID,
        THEN conjunct2, THEN conjunct1] req f by blast
  moreover have "lit ''   '' \<noteq> []" "truthy (JStr (lit ''   ''))" by (simp_all add: lit_def)
  ultimately show ?thesis
    using req z f trim_spaces exValid_Zero exFile_Zero [of initialState] by (intro conjI)
qed

end
